theory Spec2Isabelle
  imports Main
begin

section \<open>Values, rows and what the two drivers hand back\<close>

text \<open>
  The data-access layer sits between the application and two external drivers: the
  \<^verbatim>\<open>pg\<close> pool of \<^verbatim>\<open>postgres.js\<close> and the \<^verbatim>\<open>sqlite3\<close> database object of
  \<^verbatim>\<open>db.js\<close>. A column value is a JavaScript scalar, a row is an object read as an
  association list from column names to values. Strings are ASCII character lists.
\<close>

datatype jsval = JNull | JBool bool | JNum int | JStr string

text \<open>JavaScript truthiness, as used by \<^verbatim>\<open>x || null\<close> and \<^verbatim>\<open>x || false\<close>.\<close>

fun truthy :: "jsval \<Rightarrow> bool" where
  "truthy JNull = False"
| "truthy (JBool b) = b"
| "truthy (JNum n) = (n \<noteq> 0)"
| "truthy (JStr s) = (s \<noteq> [])"

type_synonym row = "(string \<times> jsval) list"

text \<open>An error thrown by a driver call, carrying its message.\<close>

datatype error = DriverError string

text \<open>\<^verbatim>\<open>dbAdapter\<close> of \<^verbatim>\<open>db-adapter.js\<close> once \<^verbatim>\<open>initDatabase\<close> has run.\<close>

datatype dbAdapter = Postgres | Sqlite

definition isPostgres :: "dbAdapter \<Rightarrow> bool" where
  "isPostgres a = (a = Postgres)"

definition isSqlite :: "dbAdapter \<Rightarrow> bool" where
  "isSqlite a = (a = Sqlite)"

text \<open>
  The result object of \<^verbatim>\<open>pool.query\<close> (its \<^verbatim>\<open>rowCount\<close> may be null), and the
  \<^verbatim>\<open>this\<close> of the callback of \<^verbatim>\<open>db.run\<close>.
\<close>

record pg_result =
  pg_rows :: "row list"
  pg_rowCount :: "nat option"

record run_info =
  changes :: nat
  lastID :: nat

text \<open>
  The drivers are parameters of the model: at a fixed content of the database each is a
  function from the statement text and its parameters to what the driver yields.
\<close>

record driver =
  pool_query :: "string \<Rightarrow> jsval list \<Rightarrow> error + pg_result"
  db_all :: "string \<Rightarrow> jsval list \<Rightarrow> error + row list"
  db_run :: "string \<Rightarrow> jsval list \<Rightarrow> error + run_info"

text \<open>Every call that reaches a driver is logged, in order.\<close>

datatype driver_call =
  PoolQuery string "jsval list"
| DbAll string "jsval list"
| DbRun string "jsval list"

text \<open>The normalized result \<^verbatim>\<open>{ rows, rowCount, insertId }\<close>.\<close>

record NormalizedQueryResult =
  rows :: "row list"
  rowCount :: nat
  insertId :: jsval

section \<open>String helpers of the translator\<close>

definition isSpace :: "char \<Rightarrow> bool" where
  "isSpace c = (c \<in> set [CHR 0x09, CHR 0x0A, CHR 0x0B, CHR 0x0C, CHR 0x0D, CHR '' ''])"

text \<open>\<^verbatim>\<open>s.trim()\<close>\<close>

definition trim :: "string \<Rightarrow> string" where
  "trim s = rev (dropWhile isSpace (rev (dropWhile isSpace s)))"

definition upperChar :: "char \<Rightarrow> char" where
  "upperChar c =
     (case map_of (zip ''abcdefghijklmnopqrstuvwxyz'' ''ABCDEFGHIJKLMNOPQRSTUVWXYZ'') c of
        Some u \<Rightarrow> u
      | None \<Rightarrow> c)"

text \<open>\<^verbatim>\<open>s.toUpperCase()\<close>\<close>

definition toUpperCase :: "string \<Rightarrow> string" where
  "toUpperCase s = map upperChar s"

text \<open>\<^verbatim>\<open>s.startsWith(p)\<close>\<close>

definition startsWith :: "string \<Rightarrow> string \<Rightarrow> bool" where
  "startsWith s p = (take (length p) s = p)"

text \<open>\<^verbatim>\<open>s.includes(p)\<close>\<close>

fun includesStr :: "string \<Rightarrow> string \<Rightarrow> bool" where
  "includesStr [] p = (p = [])"
| "includesStr (c # cs) p = (startsWith (c # cs) p \<or> includesStr cs p)"

text \<open>Decimal rendering of the running parameter index in a template literal.\<close>

fun string_of_nat :: "nat \<Rightarrow> string" where
  "string_of_nat n =
     (if n < 10 then [''0123456789'' ! n]
      else string_of_nat (n div 10) @ [''0123456789'' ! (n mod 10)])"

declare string_of_nat.simps [simp del]

text \<open>
  \<^verbatim>\<open>sql.replace(/\?/g, () => `$${paramIndex++}`)\<close> with \<^verbatim>\<open>paramIndex\<close> starting at
  the first argument: every question mark, wherever it stands, becomes a dollar sign
  followed by the running index.
\<close>

fun replaceMarks :: "nat \<Rightarrow> string \<Rightarrow> string" where
  "replaceMarks paramIndex [] = []"
| "replaceMarks paramIndex (c # cs) =
     (if c = CHR ''?'' then ''$'' @ string_of_nat paramIndex @ replaceMarks (Suc paramIndex) cs
      else c # replaceMarks paramIndex cs)"

text \<open>\<^verbatim>\<open>convertParams\<close> (the same function in db.js, db-adapter.js and db-helper.js).\<close>

definition convertParams :: "dbAdapter \<Rightarrow> string \<Rightarrow> jsval list \<Rightarrow> string \<times> jsval list" where
  "convertParams a sql params =
     (if isPostgres a then (replaceMarks 1 sql, params) else (sql, params))"

text \<open>
  A second description of the rewrite, to compare with: cut the text at the question
  marks (\<^verbatim>\<open>sql.split('?')\<close>), and join the pieces again with the i-th gap filled by
  the numbered form.
\<close>

fun pieces :: "string \<Rightarrow> string list" where
  "pieces [] = [[]]"
| "pieces (c # cs) =
     (if c = CHR ''?'' then [] # pieces cs
      else (case pieces cs of [] \<Rightarrow> [[c]] | p # ps \<Rightarrow> (c # p) # ps))"

fun joinNumbered :: "nat \<Rightarrow> string list \<Rightarrow> string" where
  "joinNumbered i [] = []"
| "joinNumbered i [p] = p"
| "joinNumbered i (p # q # ps) = p @ ''$'' @ string_of_nat i @ joinNumbered (Suc i) (q # ps)"

fun joinMarks :: "string list \<Rightarrow> string" where
  "joinMarks [] = []"
| "joinMarks [p] = p"
| "joinMarks (p # q # ps) = p @ ''?'' @ joinMarks (q # ps)"

text \<open>
  The rewriting the specification words: only placeholder tokens are rewritten, and its
  design notes tell placeholder tokens from the text of string literals. A question mark
  between single quotes is literal text and stays; a doubled quote inside a literal
  closes and reopens it. Comments and quoted identifiers are not modelled.
\<close>

fun rewriteTokens :: "bool \<Rightarrow> nat \<Rightarrow> string \<Rightarrow> string" where
  "rewriteTokens inLiteral i [] = []"
| "rewriteTokens inLiteral i (c # cs) =
     (if c = CHR 0x27 then c # rewriteTokens (\<not> inLiteral) i cs
      else if c = CHR ''?'' \<and> \<not> inLiteral
        then ''$'' @ string_of_nat i @ rewriteTokens inLiteral (Suc i) cs
      else c # rewriteTokens inLiteral i cs)"

definition translateTokens :: "string \<Rightarrow> string" where
  "translateTokens sql = rewriteTokens False 1 sql"

section \<open>The query facade\<close>

text \<open>\<^verbatim>\<open>const sqlUpper = convertedSql.trim().toUpperCase()\<close>\<close>

definition sqlUpper :: "string \<Rightarrow> string" where
  "sqlUpper convertedSql = toUpperCase (trim convertedSql)"

text \<open>
  \<^verbatim>\<open>s.replace(/;?\s*$/, '')\<close>: the leftmost match that reaches the end of the text is the
  trailing white space together with one semicolon standing right before it, if any.
\<close>

definition stripTerminator :: "string \<Rightarrow> string" where
  "stripTerminator s =
     (let t = rev (dropWhile isSpace (rev s))
      in if t \<noteq> [] \<and> last t = CHR 0x3B then butlast t else t)"

text \<open>
  \<^verbatim>\<open>finalSql\<close> of \<^verbatim>\<open>query\<close> and \<^verbatim>\<open>execute\<close>: an INSERT that does not
  mention RETURNING gets the clause appended.
\<close>

definition finalSql :: "string \<Rightarrow> string" where
  "finalSql convertedSql =
     (if startsWith (sqlUpper convertedSql) ''INSERT'' \<and> \<not> includesStr convertedSql ''RETURNING''
      then stripTerminator convertedSql @ '' RETURNING id''
      else convertedSql)"

text \<open>\<^verbatim>\<open>rows?.[0] || null\<close>: a row is an object, hence truthy.\<close>

definition firstRow :: "row list \<Rightarrow> row option" where
  "firstRow rs = (case rs of [] \<Rightarrow> None | r # _ \<Rightarrow> Some r)"

text \<open>\<^verbatim>\<open>rows?.[0]?.id || null\<close>\<close>

definition firstId :: "row list \<Rightarrow> jsval" where
  "firstId rs =
     (case rs of
        [] \<Rightarrow> JNull
      | r # _ \<Rightarrow> (case map_of r ''id'' of
                    None \<Rightarrow> JNull
                  | Some v \<Rightarrow> if truthy v then v else JNull))"

text \<open>\<^verbatim>\<open>n || null\<close> and \<^verbatim>\<open>n || 0\<close> on numbers.\<close>

definition numOrNull :: "nat \<Rightarrow> jsval" where
  "numOrNull n = (if n = 0 then JNull else JNum (int n))"

definition countOrZero :: "nat option \<Rightarrow> nat" where
  "countOrZero c = (case c of None \<Rightarrow> 0 | Some n \<Rightarrow> n)"

definition normalizePg :: "pg_result \<Rightarrow> NormalizedQueryResult" where
  "normalizePg result =
     \<lparr>rows = pg_rows result, rowCount = countOrZero (pg_rowCount result),
      insertId = firstId (pg_rows result)\<rparr>"

subsection \<open>postgres.js\<close>

definition pg_query ::
  "driver \<Rightarrow> string \<Rightarrow> jsval list \<Rightarrow> driver_call list \<times> (error + pg_result)" where
  "pg_query drv text params = ([PoolQuery text params], pool_query drv text params)"

definition pg_queryOne ::
  "driver \<Rightarrow> string \<Rightarrow> jsval list \<Rightarrow> driver_call list \<times> (error + row option)" where
  "pg_queryOne drv text params =
     (case pg_query drv text params of
        (calls, Inl e) \<Rightarrow> (calls, Inl e)
      | (calls, Inr result) \<Rightarrow> (calls, Inr (firstRow (pg_rows result))))"

definition pg_execute ::
  "driver \<Rightarrow> string \<Rightarrow> jsval list \<Rightarrow> driver_call list \<times> (error + NormalizedQueryResult)" where
  "pg_execute drv text params =
     (case pg_query drv text params of
        (calls, Inl e) \<Rightarrow> (calls, Inl e)
      | (calls, Inr result) \<Rightarrow> (calls, Inr (normalizePg result)))"

subsection \<open>db.js\<close>

definition db_query ::
  "dbAdapter \<Rightarrow> driver \<Rightarrow> string \<Rightarrow> jsval list
     \<Rightarrow> driver_call list \<times> (error + NormalizedQueryResult)" where
  "db_query a drv sql params =
     (case convertParams a sql params of
        (convertedSql, convertedParams) \<Rightarrow>
          if isPostgres a then
            (case pg_query drv (finalSql convertedSql) convertedParams of
               (calls, Inl e) \<Rightarrow> (calls, Inl e)
             | (calls, Inr result) \<Rightarrow> (calls, Inr (normalizePg result)))
          else if startsWith (sqlUpper convertedSql) ''SELECT'' then
            (case db_all drv convertedSql convertedParams of
               Inl err \<Rightarrow> ([DbAll convertedSql convertedParams], Inl err)
             | Inr rws \<Rightarrow>
                 ([DbAll convertedSql convertedParams],
                  Inr \<lparr>rows = rws, rowCount = length rws, insertId = JNull\<rparr>))
          else if startsWith (sqlUpper convertedSql) ''INSERT'' then
            (case db_run drv convertedSql convertedParams of
               Inl err \<Rightarrow> ([DbRun convertedSql convertedParams], Inl err)
             | Inr this \<Rightarrow>
                 ([DbRun convertedSql convertedParams],
                  Inr \<lparr>rows = [], rowCount = changes this, insertId = numOrNull (lastID this)\<rparr>))
          else
            (case db_run drv convertedSql convertedParams of
               Inl err \<Rightarrow> ([DbRun convertedSql convertedParams], Inl err)
             | Inr this \<Rightarrow>
                 ([DbRun convertedSql convertedParams],
                  Inr \<lparr>rows = [], rowCount = changes this, insertId = JNull\<rparr>)))"

definition db_queryOne ::
  "dbAdapter \<Rightarrow> driver \<Rightarrow> string \<Rightarrow> jsval list \<Rightarrow> driver_call list \<times> (error + row option)" where
  "db_queryOne a drv sql params =
     (case db_query a drv sql params of
        (calls, Inl e) \<Rightarrow> (calls, Inl e)
      | (calls, Inr result) \<Rightarrow> (calls, Inr (firstRow (rows result))))"

subsection \<open>db-adapter.js: the facade the application calls\<close>

definition query ::
  "dbAdapter \<Rightarrow> driver \<Rightarrow> string \<Rightarrow> jsval list
     \<Rightarrow> driver_call list \<times> (error + NormalizedQueryResult)" where
  "query a drv sql params =
     (if isPostgres a then
        (case convertParams a sql params of
           (convertedSql, convertedParams) \<Rightarrow>
             (case pg_query drv (finalSql convertedSql) convertedParams of
                (calls, Inl e) \<Rightarrow> (calls, Inl e)
              | (calls, Inr result) \<Rightarrow> (calls, Inr (normalizePg result))))
      else db_query a drv sql params)"

definition queryOne ::
  "dbAdapter \<Rightarrow> driver \<Rightarrow> string \<Rightarrow> jsval list \<Rightarrow> driver_call list \<times> (error + row option)" where
  "queryOne a drv sql params =
     (if isPostgres a then
        (case convertParams a sql params of
           (convertedSql, convertedParams) \<Rightarrow> pg_queryOne drv convertedSql convertedParams)
      else db_queryOne a drv sql params)"

definition execute ::
  "dbAdapter \<Rightarrow> driver \<Rightarrow> string \<Rightarrow> jsval list
     \<Rightarrow> driver_call list \<times> (error + NormalizedQueryResult)" where
  "execute a drv sql params =
     (if isPostgres a then
        (case convertParams a sql params of
           (convertedSql, convertedParams) \<Rightarrow>
             pg_execute drv (finalSql convertedSql) convertedParams)
      else
        (case db_query a drv sql params of
           (calls, Inl e) \<Rightarrow> (calls, Inl e)
         | (calls, Inr result) \<Rightarrow>
             (calls, Inr \<lparr>rows = rows result, rowCount = rowCount result,
                insertId = (if truthy (insertId result) then insertId result else JNull)\<rparr>)))"

section \<open>The database engine under the reset script\<close>

text \<open>
  The reset script (\<^verbatim>\<open>reset-operational-data.js\<close>) talks to an engine that holds tables
  of rows. The engine is modelled with the transaction behaviour both backends share:
  BEGIN opens a private copy of the committed tables on the connection, statements on
  that connection read and write the copy, COMMIT publishes it and ROLLBACK drops it. A
  connection with no open transaction commits each statement at once; this is how every
  statement sent through the pool of \<^verbatim>\<open>postgres.js\<close> (\<^verbatim>\<open>pool.query\<close>) runs.
\<close>

type_synonym tables = "string \<rightharpoonup> row list"

record engine =
  committed :: tables
  working :: "tables option"

text \<open>
  The connections a statement can travel on: the client checked out with
  \<^verbatim>\<open>pool.connect()\<close>, any other connection of the pool, and the one shared
  \<^verbatim>\<open>sqlite3.Database\<close>.
\<close>

datatype conn = Client | Pool | Shared

text \<open>
  The statements the script sends:
  \<^verbatim>\<open>BEGIN\<close> (\<^verbatim>\<open>BEGIN TRANSACTION\<close> on SQLite), \<^verbatim>\<open>COMMIT\<close>, \<^verbatim>\<open>ROLLBACK\<close>,
  \<^verbatim>\<open>SELECT EXISTS (SELECT FROM information_schema.tables WHERE ... table_name = $1)\<close>,
  \<^verbatim>\<open>SELECT name FROM sqlite_master WHERE type='table' AND name = ?\<close>,
  \<^verbatim>\<open>SELECT COUNT(*) as count FROM t\<close>, \<^verbatim>\<open>DELETE FROM t\<close> and
  \<^verbatim>\<open>DELETE FROM usuarios WHERE role != 'admin' AND email != 'admin@troia.com'\<close>.
\<close>

datatype stmt =
  Begin
| Commit
| Rollback
| ExistsInSchema string
| NameInMaster string
| CountRows string
| DeleteAll string
| DeleteNonAdminUsers

text \<open>What a statement hands back: its rows and the number of rows it returned or changed.\<close>

record reply =
  reply_rows :: "row list"
  reply_count :: nat

definition visible :: "conn \<Rightarrow> engine \<Rightarrow> tables" where
  "visible c e =
     (case working e of
        Some w \<Rightarrow> if c = Pool then committed e else w
      | None \<Rightarrow> committed e)"

definition store :: "conn \<Rightarrow> tables \<Rightarrow> engine \<Rightarrow> engine" where
  "store c t e =
     (case working e of
        Some w \<Rightarrow> if c = Pool then e\<lparr>committed := t\<rparr> else e\<lparr>working := Some t\<rparr>
      | None \<Rightarrow> e\<lparr>committed := t\<rparr>)"

text \<open>
  \<^verbatim>\<open>col != 'literal'\<close> in a WHERE clause holds for a text value other than the literal;
  on NULL the comparison is unknown and the row is not selected.
\<close>

definition sqlNotEqual :: "jsval option \<Rightarrow> string \<Rightarrow> bool" where
  "sqlNotEqual v lit = (case v of Some (JStr s) \<Rightarrow> s \<noteq> lit | _ \<Rightarrow> False)"

definition deletedByPurge :: "row \<Rightarrow> bool" where
  "deletedByPurge r =
     (sqlNotEqual (map_of r ''role'') ''admin''
      \<and> sqlNotEqual (map_of r ''email'') ''admin@troia.com'')"

definition keptByPurge :: "row \<Rightarrow> bool" where
  "keptByPurge r = (\<not> deletedByPurge r)"

fun exec :: "conn \<Rightarrow> stmt \<Rightarrow> engine \<Rightarrow> (error + reply) \<times> engine" where
  "exec c Begin e =
     (if c = Pool then (Inr \<lparr>reply_rows = [], reply_count = 0\<rparr>, e)
      else (case working e of
              None \<Rightarrow> (Inr \<lparr>reply_rows = [], reply_count = 0\<rparr>, e\<lparr>working := Some (committed e)\<rparr>)
            | Some w \<Rightarrow> (Inl (DriverError ''a transaction is already open''), e)))"
| "exec c Commit e =
     (if c = Pool then (Inr \<lparr>reply_rows = [], reply_count = 0\<rparr>, e)
      else (case working e of
              None \<Rightarrow> (Inl (DriverError ''no transaction is active''), e)
            | Some w \<Rightarrow> (Inr \<lparr>reply_rows = [], reply_count = 0\<rparr>, \<lparr>committed = w, working = None\<rparr>)))"
| "exec c Rollback e =
     (if c = Pool then (Inr \<lparr>reply_rows = [], reply_count = 0\<rparr>, e)
      else (case working e of
              None \<Rightarrow> (Inl (DriverError ''no transaction is active''), e)
            | Some w \<Rightarrow> (Inr \<lparr>reply_rows = [], reply_count = 0\<rparr>, e\<lparr>working := None\<rparr>)))"
| "exec c (ExistsInSchema t) e =
     (Inr \<lparr>reply_rows = [[(''exists'', JBool (visible c e t \<noteq> None))]], reply_count = 1\<rparr>, e)"
| "exec c (NameInMaster t) e =
     (if visible c e t \<noteq> None
      then (Inr \<lparr>reply_rows = [[(''name'', JStr t)]], reply_count = 1\<rparr>, e)
      else (Inr \<lparr>reply_rows = [], reply_count = 0\<rparr>, e))"
| "exec c (CountRows t) e =
     (case visible c e t of
        None \<Rightarrow> (Inl (DriverError ''no such table''), e)
      | Some rs \<Rightarrow>
          (Inr \<lparr>reply_rows = [[(''count'', JStr (string_of_nat (length rs)))]], reply_count = 1\<rparr>, e))"
| "exec c (DeleteAll t) e =
     (case visible c e t of
        None \<Rightarrow> (Inl (DriverError ''no such table''), e)
      | Some rs \<Rightarrow>
          (Inr \<lparr>reply_rows = [], reply_count = length rs\<rparr>, store c ((visible c e)(t \<mapsto> [])) e))"
| "exec c DeleteNonAdminUsers e =
     (case visible c e ''usuarios'' of
        None \<Rightarrow> (Inl (DriverError ''no such table''), e)
      | Some rs \<Rightarrow>
          (Inr \<lparr>reply_rows = [], reply_count = length (filter deletedByPurge rs)\<rparr>,
           store c ((visible c e)(''usuarios'' \<mapsto> filter keptByPurge rs)) e))"

text \<open>
  A run of the script: the engine and the statements sent so far, each with the
  connection it went out on. A failure can be injected at one statement, counted from 0
  in the order sent: that statement raises and leaves the engine as it was.
\<close>

record run =
  eng :: engine
  issued :: "(conn \<times> stmt) list"

definition issue :: "nat option \<Rightarrow> conn \<Rightarrow> stmt \<Rightarrow> run \<Rightarrow> (error + reply) \<times> run" where
  "issue fault c s r =
     (if fault = Some (length (issued r))
      then (Inl (DriverError ''injected failure''), r\<lparr>issued := issued r @ [(c, s)]\<rparr>)
      else (case exec c s (eng r) of
              (res, e') \<Rightarrow> (res, \<lparr>eng = e', issued = issued r @ [(c, s)]\<rparr>)))"

section \<open>The reset script\<close>

definition TABLES_TO_CLEAN :: "string list" where
  "TABLES_TO_CLEAN =
     [''km_historico'', ''abastecimentos'', ''manutencoes'', ''ocr_usage'',
      ''veiculo_compartilhamentos'', ''proprietarios_historico'', ''proprietarios'',
      ''veiculos'']"

record TableCleanupResult =
  table :: string
  deleted :: nat
  skipped :: bool

text \<open>
  The connection behind \<^verbatim>\<open>query\<close> and \<^verbatim>\<open>queryOne\<close> of db-adapter.js: the pool
  (\<^verbatim>\<open>pool.query\<close> of postgres.js) or the shared SQLite database.
\<close>

definition facadeConn :: "dbAdapter \<Rightarrow> conn" where
  "facadeConn a = (if isPostgres a then Pool else Shared)"

text \<open>\<^verbatim>\<open>tableExists(tableName)\<close>: it takes no client and asks through \<^verbatim>\<open>queryOne\<close>.\<close>

definition tableExists :: "nat option \<Rightarrow> dbAdapter \<Rightarrow> string \<Rightarrow> run \<Rightarrow> (error + bool) \<times> run" where
  "tableExists fault a tableName r =
     (if isPostgres a then
        (case issue fault (facadeConn a) (ExistsInSchema tableName) r of
           (Inl e, r') \<Rightarrow> (Inl e, r')
         | (Inr result, r') \<Rightarrow>
             (Inr (case firstRow (reply_rows result) of
                     None \<Rightarrow> False
                   | Some rw \<Rightarrow> (case map_of rw ''exists'' of None \<Rightarrow> False | Some v \<Rightarrow> truthy v)),
              r'))
      else
        (case issue fault (facadeConn a) (NameInMaster tableName) r of
           (Inl e, r') \<Rightarrow> (Inl e, r')
         | (Inr result, r') \<Rightarrow> (Inr (firstRow (reply_rows result) \<noteq> None), r')))"

text \<open>\<^verbatim>\<open>cleanTable(tableName, client)\<close>\<close>

definition cleanTable ::
  "nat option \<Rightarrow> dbAdapter \<Rightarrow> string \<Rightarrow> conn option \<Rightarrow> run
     \<Rightarrow> (error + TableCleanupResult) \<times> run" where
  "cleanTable fault a tableName client r =
     (case tableExists fault a tableName r of
        (Inl e, r1) \<Rightarrow> (Inl e, r1)
      | (Inr exists, r1) \<Rightarrow>
          if \<not> exists then (Inr \<lparr>table = tableName, deleted = 0, skipped = True\<rparr>, r1)
          else if client \<noteq> None \<and> isPostgres a then
            (case issue fault (the client) (CountRows tableName) r1 of
               (Inl e, r2) \<Rightarrow> (Inl e, r2)
             | (Inr countResult, r2) \<Rightarrow>
                 (case issue fault (the client) (DeleteAll tableName) r2 of
                    (Inl e, r3) \<Rightarrow> (Inl e, r3)
                  | (Inr result, r3) \<Rightarrow>
                      (Inr \<lparr>table = tableName, deleted = reply_count result, skipped = False\<rparr>, r3)))
          else
            (case issue fault (facadeConn a) (DeleteAll tableName) r1 of
               (Inl e, r2) \<Rightarrow> (Inl e, r2)
             | (Inr result, r2) \<Rightarrow>
                 (Inr \<lparr>table = tableName, deleted = reply_count result, skipped = False\<rparr>, r2)))"

text \<open>\<^verbatim>\<open>cleanUsers(client)\<close>\<close>

definition cleanUsers ::
  "nat option \<Rightarrow> dbAdapter \<Rightarrow> conn option \<Rightarrow> run \<Rightarrow> (error + TableCleanupResult) \<times> run" where
  "cleanUsers fault a client r =
     (case tableExists fault a ''usuarios'' r of
        (Inl e, r1) \<Rightarrow> (Inl e, r1)
      | (Inr exists, r1) \<Rightarrow>
          if \<not> exists then (Inr \<lparr>table = ''usuarios'', deleted = 0, skipped = True\<rparr>, r1)
          else
            (case issue fault (if client \<noteq> None \<and> isPostgres a then the client else facadeConn a)
                    DeleteNonAdminUsers r1 of
               (Inl e, r2) \<Rightarrow> (Inl e, r2)
             | (Inr result, r2) \<Rightarrow>
                 (Inr \<lparr>table = ''usuarios'', deleted = reply_count result, skipped = False\<rparr>, r2)))"

text \<open>The loop \<^verbatim>\<open>for (const table of TABLES_TO_CLEAN)\<close>, pushing onto \<^verbatim>\<open>results\<close>.\<close>

fun cleanTables ::
  "nat option \<Rightarrow> dbAdapter \<Rightarrow> conn option \<Rightarrow> string list \<Rightarrow> TableCleanupResult list \<Rightarrow> run
     \<Rightarrow> (error + TableCleanupResult list) \<times> run" where
  "cleanTables fault a client [] results r = (Inr results, r)"
| "cleanTables fault a client (t # ts) results r =
     (case cleanTable fault a t client r of
        (Inl e, r') \<Rightarrow> (Inl e, r')
      | (Inr result, r') \<Rightarrow> cleanTables fault a client ts (results @ [result]) r')"

text \<open>The summary loop: \<^verbatim>\<open>totalDeleted += result.deleted\<close> for the entries not skipped.\<close>

definition sumDeleted :: "TableCleanupResult list \<Rightarrow> nat" where
  "sumDeleted results =
     foldl (\<lambda>total result. if skipped result then total else total + deleted result) 0 results"

text \<open>
  The report: the \<^verbatim>\<open>results\<close> array (the field \<open>entries\<close>) with \<^verbatim>\<open>totalDeleted\<close>.
  The script prints it under \<^verbatim>\<open>Resumo da limpeza\<close>.
\<close>

record ResetReport =
  entries :: "TableCleanupResult list"
  totalDeleted :: nat

text \<open>
  How the function ends: its promise resolves with a value (\<^verbatim>\<open>None\<close> is JavaScript's
  \<^verbatim>\<open>undefined\<close>), or the catch block ends the process with \<^verbatim>\<open>process.exit(1)\<close> after
  logging the error.
\<close>

datatype outcome = Resolved "ResetReport option" | Exit1 error

record reset_result =
  outcome :: outcome
  printed :: "ResetReport option"
  final :: run

text \<open>The body of the \<^verbatim>\<open>try\<close> block, up to and including the commit.\<close>

definition tryBody ::
  "nat option \<Rightarrow> dbAdapter \<Rightarrow> bool \<Rightarrow> conn option \<Rightarrow> run
     \<Rightarrow> (error + TableCleanupResult list) \<times> run" where
  "tryBody fault a resetUsers client r0 =
     (case issue fault (case client of Some cl \<Rightarrow> cl | None \<Rightarrow> facadeConn a) Begin r0 of
        (Inl e, r1) \<Rightarrow> (Inl e, r1)
      | (Inr started, r1) \<Rightarrow>
          (case cleanTables fault a client TABLES_TO_CLEAN [] r1 of
             (Inl e, r2) \<Rightarrow> (Inl e, r2)
           | (Inr results, r2) \<Rightarrow>
               (case (if resetUsers then
                        (case cleanUsers fault a client r2 of
                           (Inl e, r3) \<Rightarrow> (Inl e, r3)
                         | (Inr result, r3) \<Rightarrow> (Inr (results @ [result]), r3))
                      else (Inr results, r2)) of
                  (Inl e, r3) \<Rightarrow> (Inl e, r3)
                | (Inr results', r3) \<Rightarrow>
                    (case issue fault (case client of Some cl \<Rightarrow> cl | None \<Rightarrow> facadeConn a)
                            Commit r3 of
                       (Inl e, r4) \<Rightarrow> (Inl e, r4)
                     | (Inr done, r4) \<Rightarrow> (Inr results', r4)))))"

text \<open>
  \<^verbatim>\<open>resetOperationalData(resetUsers)\<close> on tables \<^verbatim>\<open>db\<close>. The client is the one
  \<^verbatim>\<open>pool.connect()\<close> hands out on PostgreSQL (the checkout is taken to succeed:
  \<^verbatim>\<open>initDatabase\<close> has probed the pool) and stays \<^verbatim>\<open>null\<close> on SQLite. The catch block
  sends ROLLBACK, ignores what that raises, and exits. The function has no
  \<^verbatim>\<open>return\<close> statement.
\<close>

definition resetOperationalData ::
  "nat option \<Rightarrow> dbAdapter \<Rightarrow> bool \<Rightarrow> tables \<Rightarrow> reset_result" where
  "resetOperationalData fault a resetUsers db =
     (let client = (if isPostgres a then Some Client else None);
          r0 = \<lparr>eng = \<lparr>committed = db, working = None\<rparr>, issued = []\<rparr>
      in case tryBody fault a resetUsers client r0 of
           (Inr results, r) \<Rightarrow>
             \<lparr>outcome = Resolved None,
              printed = Some \<lparr>entries = results, totalDeleted = sumDeleted results\<rparr>,
              final = r\<rparr>
         | (Inl error, r) \<Rightarrow>
             (case issue fault (case client of Some cl \<Rightarrow> cl | None \<Rightarrow> facadeConn a)
                     Rollback r of
                (rollbackResult, r') \<Rightarrow>
                  \<lparr>outcome = Exit1 error, printed = None, final = r'\<rparr>))"

section \<open>What a run of the reset is expected to leave behind\<close>

text \<open>
  The report entry the specification asks for a table: skipped with nothing deleted when
  the table is absent, otherwise the number of rows the table held.
\<close>

definition entry :: "tables \<Rightarrow> string \<Rightarrow> TableCleanupResult" where
  "entry w t =
     (case w t of
        None \<Rightarrow> \<lparr>table = t, deleted = 0, skipped = True\<rparr>
      | Some rs \<Rightarrow> \<lparr>table = t, deleted = length rs, skipped = False\<rparr>)"

text \<open>
  The tables after an unconditional delete-all on one table, and after the list.
\<close>

definition emptied :: "tables \<Rightarrow> string \<Rightarrow> tables" where
  "emptied w t = (case w t of None \<Rightarrow> w | Some rs \<Rightarrow> w(t \<mapsto> []))"

definition emptiedAll :: "string list \<Rightarrow> tables \<Rightarrow> tables" where
  "emptiedAll ts w = (\<lambda>t. if t \<in> set ts \<and> w t \<noteq> None then Some [] else w t)"

text \<open>
  The report entry and the tables after the purge of the user accounts.
\<close>

definition usersEntry :: "tables \<Rightarrow> TableCleanupResult" where
  "usersEntry w =
     (case w ''usuarios'' of
        None \<Rightarrow> \<lparr>table = ''usuarios'', deleted = 0, skipped = True\<rparr>
      | Some rs \<Rightarrow>
          \<lparr>table = ''usuarios'', deleted = length (filter deletedByPurge rs), skipped = False\<rparr>)"

definition purged :: "tables \<Rightarrow> tables" where
  "purged w =
     (case w ''usuarios'' of
        None \<Rightarrow> w
      | Some rs \<Rightarrow> w(''usuarios'' \<mapsto> filter keptByPurge rs))"

text \<open>
  The administrator predicate of the specification: the administrator role, or the
  reserved administrator address.
\<close>

definition isAdministrator :: "row \<Rightarrow> bool" where
  "isAdministrator r =
     (map_of r ''role'' = Some (JStr ''admin'')
      \<or> map_of r ''email'' = Some (JStr ''admin@troia.com''))"

text \<open>
  The report entries one after the other, each computed on the tables as the earlier
  deletes left them.
\<close>

fun expected :: "tables \<Rightarrow> string list \<Rightarrow> TableCleanupResult list" where
  "expected w [] = []"
| "expected w (t # ts) = entry w t # expected (emptied w t) ts"

definition expectedEntries :: "bool \<Rightarrow> tables \<Rightarrow> TableCleanupResult list" where
  "expectedEntries resetUsers db =
     map (entry db) TABLES_TO_CLEAN @ (if resetUsers then [usersEntry db] else [])"

definition expectedTables :: "bool \<Rightarrow> tables \<Rightarrow> tables" where
  "expectedTables resetUsers db =
     (if resetUsers then purged (emptiedAll TABLES_TO_CLEAN db) else emptiedAll TABLES_TO_CLEAN db)"

text \<open>
  The client handed to \<^verbatim>\<open>cleanTable\<close> and \<^verbatim>\<open>cleanUsers\<close>, and the connection that
  carries BEGIN, COMMIT and ROLLBACK.
\<close>

definition clientOf :: "dbAdapter \<Rightarrow> conn option" where
  "clientOf a = (if isPostgres a then Some Client else None)"

definition txConn :: "dbAdapter \<Rightarrow> conn" where
  "txConn a = (if isPostgres a then Client else Shared)"

text \<open>
  The existence checks among the statements, and the connection each statement is
  expected on.
\<close>

definition isExistenceCheck :: "stmt \<Rightarrow> bool" where
  "isExistenceCheck s = (case s of ExistsInSchema t \<Rightarrow> True | NameInMaster t \<Rightarrow> True | _ \<Rightarrow> False)"

definition routed :: "dbAdapter \<Rightarrow> conn \<times> stmt \<Rightarrow> bool" where
  "routed a cs = (fst cs = (if isExistenceCheck (snd cs) then facadeConn a else txConn a))"

text \<open>
  Predicates for the proofs. Inside the transaction nothing has been committed and the
  working copy has the tables the database has; the injected failure is still ahead, or
  it has just hit the last statement sent; a step either succeeds with its
  postcondition or fails with the injected failure; the trace only grows.
\<close>

definition inTx :: "tables \<Rightarrow> tables \<Rightarrow> run \<Rightarrow> bool" where
  "inTx db w r = (eng r = \<lparr>committed = db, working = Some w\<rparr> \<and> dom w = dom db)"

definition faultAhead :: "nat option \<Rightarrow> run \<Rightarrow> bool" where
  "faultAhead fault r = (case fault of None \<Rightarrow> True | Some k \<Rightarrow> length (issued r) \<le> k)"

definition failedNow :: "nat option \<Rightarrow> tables \<Rightarrow> run \<Rightarrow> bool" where
  "failedNow fault db r =
     (committed (eng r) = db \<and> issued r \<noteq> [] \<and> fault = Some (length (issued r) - 1))"

definition post ::
  "nat option \<Rightarrow> tables \<Rightarrow> ('a \<Rightarrow> run \<Rightarrow> bool) \<Rightarrow> (error + 'a) \<times> run \<Rightarrow> bool" where
  "post fault db Q out =
     (case out of
        (Inr x, r') \<Rightarrow> faultAhead fault r' \<and> Q x r'
      | (Inl e, r') \<Rightarrow> e = DriverError ''injected failure'' \<and> failedNow fault db r')"

definition grows :: "(conn \<times> stmt \<Rightarrow> bool) \<Rightarrow> run \<Rightarrow> run \<Rightarrow> bool" where
  "grows P r r' = (\<exists>ys. issued r' = issued r @ ys \<and> list_all P ys)"

section \<open>The reset service behind the administrative route\<close>

text \<open>
  Modelled from the spec: the existence check (step 2a of section 4.5) of
  \<^verbatim>\<open>resetOperationalData(options)\<close> in \<^verbatim>\<open>services/resetDataService.js\<close>. That
  file is not among the sources; \<^verbatim>\<open>routes/admin.js\<close> and the command-line entry import
  the function from it and read \<^verbatim>\<open>result.totalDeleted\<close> and \<^verbatim>\<open>result.summary\<close>
  from what it returns. The check is an \<^verbatim>\<open>information_schema\<close> lookup on the
  networked backend and a catalog-table lookup on the embedded one, sent, like every
  statement of the operation, on the connection the transaction runs on.
\<close>

definition checkExistence ::
  "nat option \<Rightarrow> dbAdapter \<Rightarrow> string \<Rightarrow> run \<Rightarrow> (error + bool) \<times> run" where
  "checkExistence fault a t r =
     (case issue fault (txConn a) (if isPostgres a then ExistsInSchema t else NameInMaster t) r of
        (Inl e, r') \<Rightarrow> (Inl e, r')
      | (Inr found, r') \<Rightarrow>
          (Inr (case reply_rows found of
                  [] \<Rightarrow> False
                | rw # others \<Rightarrow>
                    if isPostgres a then map_of rw ''exists'' = Some (JBool True) else True),
           r'))"

text \<open>
  Modelled from the spec: steps 2b and 2c of the missing service. An absent table is
  recorded as \<open>{table, deleted: 0, skipped: true}\<close> and is no error; a present one is
  emptied by an unconditional delete-all on the transaction's connection and recorded
  with the number of affected rows.
\<close>

definition resetTable ::
  "nat option \<Rightarrow> dbAdapter \<Rightarrow> string \<Rightarrow> run \<Rightarrow> (error + TableCleanupResult) \<times> run" where
  "resetTable fault a t r =
     (case checkExistence fault a t r of
        (Inl e, r1) \<Rightarrow> (Inl e, r1)
      | (Inr present, r1) \<Rightarrow>
          if \<not> present then (Inr \<lparr>table = t, deleted = 0, skipped = True\<rparr>, r1)
          else
            (case issue fault (txConn a) (DeleteAll t) r1 of
               (Inl e, r2) \<Rightarrow> (Inl e, r2)
             | (Inr result, r2) \<Rightarrow>
                 (Inr \<lparr>table = t, deleted = reply_count result, skipped = False\<rparr>, r2)))"

text \<open>
  Modelled from the spec: step 2 of the missing service, the tables strictly in the
  supplied order, each result added to the report built so far.
\<close>

fun resetTables ::
  "nat option \<Rightarrow> dbAdapter \<Rightarrow> string list \<Rightarrow> TableCleanupResult list \<Rightarrow> run
     \<Rightarrow> (error + TableCleanupResult list) \<times> run" where
  "resetTables fault a [] report r = (Inr report, r)"
| "resetTables fault a (t # ts) report r =
     (case resetTable fault a t r of
        (Inl e, r') \<Rightarrow> (Inl e, r')
      | (Inr recorded, r') \<Rightarrow> resetTables fault a ts (report @ [recorded]) r')"

text \<open>
  Modelled from the spec: step 3 of the missing service, the purge of the accounts
  whose role is not the administrator role and whose email is not the reserved
  address, recorded in the same shape under the fixed key of the user table.
\<close>

definition purgeUsers ::
  "nat option \<Rightarrow> dbAdapter \<Rightarrow> run \<Rightarrow> (error + TableCleanupResult) \<times> run" where
  "purgeUsers fault a r =
     (case issue fault (txConn a) DeleteNonAdminUsers r of
        (Inl e, r') \<Rightarrow> (Inl e, r')
      | (Inr result, r') \<Rightarrow>
          (Inr \<lparr>table = ''usuarios'', deleted = reply_count result, skipped = False\<rparr>, r'))"

text \<open>
  Modelled from the spec: steps 1 to 4 of the missing service. Begin the transaction,
  process the tables, purge the accounts if \<open>resetUsers\<close> is set, commit, and return
  the accumulated report with \<open>totalDeleted\<close> computed as the sum of \<open>deleted\<close>
  across the entries that are not skipped.
\<close>

definition orchestrate ::
  "nat option \<Rightarrow> dbAdapter \<Rightarrow> string list \<Rightarrow> bool \<Rightarrow> run \<Rightarrow> (error + ResetReport) \<times> run" where
  "orchestrate fault a ts resetUsers r0 =
     (case issue fault (txConn a) Begin r0 of
        (Inl e, r1) \<Rightarrow> (Inl e, r1)
      | (Inr started, r1) \<Rightarrow>
          (case resetTables fault a ts [] r1 of
             (Inl e, r2) \<Rightarrow> (Inl e, r2)
           | (Inr report, r2) \<Rightarrow>
               (case (if resetUsers then
                        (case purgeUsers fault a r2 of
                           (Inl e, r3) \<Rightarrow> (Inl e, r3)
                         | (Inr recorded, r3) \<Rightarrow> (Inr (report @ [recorded]), r3))
                      else (Inr report, r2)) of
                  (Inl e, r3) \<Rightarrow> (Inl e, r3)
                | (Inr report', r3) \<Rightarrow>
                    (case issue fault (txConn a) Commit r3 of
                       (Inl e, r4) \<Rightarrow> (Inl e, r4)
                     | (Inr done, r4) \<Rightarrow>
                         (Inr \<lparr>entries = report',
                               totalDeleted
                                 = sum_list (map deleted (filter (\<lambda>x. \<not> skipped x) report'))\<rparr>,
                          r4)))))"

text \<open>
  Modelled from the spec: \<^verbatim>\<open>resetOperationalData(options) -> ResetReport\<close> of the
  missing service, on the table list \<open>ts\<close> and the tables \<open>db\<close>. When every step
  succeeds the report is returned to the caller; when a step raises, a rollback is sent
  on the transaction's connection and the original error is propagated (step 5).
\<close>

definition resetOperationalDataService ::
  "nat option \<Rightarrow> dbAdapter \<Rightarrow> string list \<Rightarrow> bool \<Rightarrow> tables \<Rightarrow> (error + ResetReport) \<times> run" where
  "resetOperationalDataService fault a ts resetUsers db =
     (case orchestrate fault a ts resetUsers
             \<lparr>eng = \<lparr>committed = db, working = None\<rparr>, issued = []\<rparr> of
        (Inr report, r) \<Rightarrow> (Inr report, r)
      | (Inl e, r) \<Rightarrow>
          (case issue fault (txConn a) Rollback r of
             (rolledBack, r') \<Rightarrow> (Inl e, r')))"

section \<open>Field names and types of a result\<close>

text \<open>
  The shape of a normalized result as a caller sees it: for each row its field names
  with the JavaScript type of each value, and the type of \<^verbatim>\<open>insertId\<close>.
\<close>

datatype jsType = TNull | TBoolean | TNumber | TString

fun jsTypeOf :: "jsval \<Rightarrow> jsType" where
  "jsTypeOf JNull = TNull"
| "jsTypeOf (JBool b) = TBoolean"
| "jsTypeOf (JNum n) = TNumber"
| "jsTypeOf (JStr s) = TString"

definition rowShape :: "row \<Rightarrow> (string \<times> jsType) list" where
  "rowShape r = map (\<lambda>kv. (fst kv, jsTypeOf (snd kv))) r"

definition resultShape :: "NormalizedQueryResult \<Rightarrow> (string \<times> jsType) list list \<times> jsType" where
  "resultShape res = (map rowShape (rows res), jsTypeOf (insertId res))"

section \<open>Fixtures\<close>

text \<open>
  Three maintenance records on two vehicles, and three accounts: an administrator by
  role, an account with the reserved address, and a plain account. The other tables of
  the list are absent.
\<close>

definition sampleTables :: tables where
  "sampleTables =
     [''manutencoes'' \<mapsto> [[(''id'', JNum 1)], [(''id'', JNum 2)], [(''id'', JNum 3)]],
      ''veiculos'' \<mapsto> [[(''id'', JNum 1)], [(''id'', JNum 2)]],
      ''usuarios'' \<mapsto>
        [[(''role'', JStr ''admin''), (''email'', JStr ''root@troia.com'')],
         [(''role'', JStr ''cliente''), (''email'', JStr ''admin@troia.com'')],
         [(''role'', JStr ''cliente''), (''email'', JStr ''ana@troia.com'')]]]"

text \<open>
  A user table in which one account has no role (NULL) and one has no email, next to
  an administrator and a plain account. None of the listed tables is present.
\<close>

definition accountsWithoutRole :: tables where
  "accountsWithoutRole =
     [''usuarios'' \<mapsto>
        [[(''role'', JStr ''admin''), (''email'', JStr ''root@troia.com'')],
         [(''role'', JNull), (''email'', JStr ''ana@troia.com'')],
         [(''role'', JStr ''cliente''), (''email'', JNull)],
         [(''role'', JStr ''cliente''), (''email'', JStr ''bia@troia.com'')]]]"

text \<open>
  The two drivers over one vehicle table: the row with id 1 answers the SELECT by id
  (the two rows the unfiltered one), a
  one-row INSERT generates the key 7, a two-row INSERT the keys 7 and 8, the DELETE
  removes one row. The pool answers an INSERT with the rows of its RETURNING clause, if
  it has one. A \<^verbatim>\<open>COUNT(*)\<close> over the two vehicles comes back from the pool as the
  text \<^verbatim>\<open>'2'\<close> (the reset script reads such a count with \<^verbatim>\<open>parseInt\<close>) and from the
  embedded driver as the number 2.
\<close>

definition sampleDriver :: driver where
  "sampleDriver =
     \<lparr>pool_query = (\<lambda>text params.
        if text = ''SELECT id, placa FROM veiculos WHERE id = $1''
        then Inr \<lparr>pg_rows = [[(''id'', JNum 1), (''placa'', JStr ''ABC1D23'')]], pg_rowCount = Some 1\<rparr>
        else if text = ''INSERT INTO veiculos (placa) VALUES ($1) RETURNING id''
        then Inr \<lparr>pg_rows = [[(''id'', JNum 7)]], pg_rowCount = Some 1\<rparr>
        else if text = ''INSERT INTO veiculos (placa) VALUES ($1)''
        then Inr \<lparr>pg_rows = [], pg_rowCount = Some 1\<rparr>
        else if text = ''INSERT INTO veiculos (placa) VALUES ($1), ($2) RETURNING id''
        then Inr \<lparr>pg_rows = [[(''id'', JNum 7)], [(''id'', JNum 8)]], pg_rowCount = Some 2\<rparr>
        else if text = ''DELETE FROM veiculos WHERE id = $1''
        then Inr \<lparr>pg_rows = [], pg_rowCount = Some 1\<rparr>
        else if text = ''SELECT COUNT(*) as count FROM veiculos''
        then Inr \<lparr>pg_rows = [[(''count'', JStr ''2'')]], pg_rowCount = Some 1\<rparr>
        else Inl (DriverError ''unexpected statement'')),
      db_all = (\<lambda>text params.
        if text = ''SELECT id, placa FROM veiculos WHERE id = ?''
        then Inr [[(''id'', JNum 1), (''placa'', JStr ''ABC1D23'')]]
        else if text = ''  select id from veiculos ''
        then Inr [[(''id'', JNum 1)], [(''id'', JNum 2)]]
        else if text = ''SELECT COUNT(*) as count FROM veiculos''
        then Inr [[(''count'', JNum 2)]]
        else Inl (DriverError ''unexpected statement'')),
      db_run = (\<lambda>text params.
        if text = ''INSERT INTO veiculos (placa) VALUES (?)''
        then Inr \<lparr>changes = 1, lastID = 7\<rparr>
        else if text = ''INSERT INTO veiculos (placa) VALUES (?), (?)''
        then Inr \<lparr>changes = 2, lastID = 8\<rparr>
        else if text = ''WITH v AS (SELECT id FROM veiculos) SELECT id FROM v''
        then Inr \<lparr>changes = 0, lastID = 8\<rparr>
        else if text = ''DELETE FROM veiculos WHERE id = ?''
        then Inr \<lparr>changes = 1, lastID = 8\<rparr>
        else Inl (DriverError ''unexpected statement''))\<rparr>"

section \<open>Placeholder translation\<close>

lemma pieces_nonempty: "pieces s \<noteq> []"
  by (induction s) (auto split: list.splits)

lemma joinMarks_pieces: "joinMarks (pieces s) = s"
proof (induction s)
  case Nil
  then show ?case by simp
next
  case (Cons c cs)
  obtain p ps where eq: "pieces cs = p # ps"
    using pieces_nonempty [of cs] by (cases "pieces cs") auto
  show ?case
  proof (cases "c = CHR ''?''")
    case True
    with Cons eq show ?thesis by simp
  next
    case False
    with Cons eq show ?thesis by (cases ps) auto
  qed
qed

lemma pieces_no_mark: "CHR ''?'' \<notin> set (concat (pieces s))"
proof (induction s)
  case Nil
  then show ?case by simp
next
  case (Cons c cs)
  then show ?case by (cases "pieces cs") auto
qed

lemma length_pieces: "length (pieces s) = Suc (count_list s (CHR ''?''))"
proof (induction s)
  case Nil
  then show ?case by simp
next
  case (Cons c cs)
  then show ?case by (cases "pieces cs") auto
qed

lemma replaceMarks_pieces: "replaceMarks i s = joinNumbered i (pieces s)"
proof (induction s arbitrary: i)
  case Nil
  then show ?case by simp
next
  case (Cons c cs)
  obtain p ps where eq: "pieces cs = p # ps"
    using pieces_nonempty [of cs] by (cases "pieces cs") auto
  show ?case
  proof (cases "c = CHR ''?''")
    case True
    with Cons [of "Suc i"] eq show ?thesis by simp
  next
    case False
    with Cons [of i] eq show ?thesis by (cases ps) auto
  qed
qed

text \<open>
  What the translator does. With the networked backend active every question mark of the
  text (the source's \<^verbatim>\<open>/\?/g\<close>), in the order met and counting from 1, becomes the
  numbered form; the text between the question marks and the parameter array stay as
  they are. The pieces between the question marks hold none, joined with question marks
  they give the query back, and there is one more piece than question marks. With the
  embedded backend active the query and the parameters pass through unchanged.
\<close>

lemma convertParams_every_mark:
  "convertParams Postgres sql params = (joinNumbered 1 (pieces sql), params)
   \<and> joinMarks (pieces sql) = sql
   \<and> CHR ''?'' \<notin> set (concat (pieces sql))
   \<and> length (pieces sql) = Suc (count_list sql (CHR ''?''))
   \<and> convertParams Sqlite sql params = (sql, params)"
proof (intro conjI)
  show "convertParams Postgres sql params = (joinNumbered 1 (pieces sql), params)"
    by (simp add: convertParams_def isPostgres_def replaceMarks_pieces)
  show "joinMarks (pieces sql) = sql"
    by (rule joinMarks_pieces)
  show "CHR ''?'' \<notin> set (concat (pieces sql))"
    by (rule pieces_no_mark)
  show "length (pieces sql) = Suc (count_list sql (CHR ''?''))"
    by (rule length_pieces)
  show "convertParams Sqlite sql params = (sql, params)"
    by (simp add: convertParams_def isPostgres_def)
qed

lemma convertParams_two_digits:
  "convertParams Postgres ''VALUES (?, ?, ?, ?, ?, ?, ?, ?, ?, ?, ?)'' params
     = (''VALUES ($1, $2, $3, $4, $5, $6, $7, $8, $9, $10, $11)'', params)"
proof -
  have "joinNumbered 1 (pieces ''VALUES (?, ?, ?, ?, ?, ?, ?, ?, ?, ?, ?)'')
      = ''VALUES ($1, $2, $3, $4, $5, $6, $7, $8, $9, $10, $11)''"
    by code_simp
  then show ?thesis
    using convertParams_every_mark [of "''VALUES (?, ?, ?, ?, ?, ?, ?, ?, ?, ?, ?)''" params]
    by simp
qed

text \<open>
  Where no string literal is in play the translator does what the specification words:
  on a query without a single quote every question mark is a placeholder token.
\<close>

lemma rewriteTokens_without_quotes:
  "CHR 0x27 \<notin> set sql \<Longrightarrow> rewriteTokens False i sql = replaceMarks i sql"
  by (induction sql arbitrary: i) auto

lemma convertParams_without_quotes:
  "CHR 0x27 \<notin> set sql \<Longrightarrow> convertParams Postgres sql params = (translateTokens sql, params)"
  by (simp add: convertParams_def isPostgres_def translateTokens_def rewriteTokens_without_quotes)

text \<open>
  C8 asks that the i-th positional placeholder token become \<open>$i\<close> and that all other
  query text stay unchanged. A question mark inside a string literal is no placeholder
  token, but the translator rewrites it like any other: in the query below the literal
  \<open>'quem?'\<close> comes out as \<open>'quem$1'\<close> and the one placeholder as \<open>$2\<close>, for a
  parameter array of one element, where the specification's wording gives the literal
  unchanged and the placeholder as \<open>$1\<close>. On the embedded backend the same query
  passes through unchanged, with its one placeholder.
\<close>

theorem convertParams_rewrites_inside_literal:
  "convertParams Postgres ''SELECT id FROM usuarios WHERE nome = 'quem?' AND id = ?'' [JNum 5]
     = (''SELECT id FROM usuarios WHERE nome = 'quem$1' AND id = $2'', [JNum 5])
   \<and> translateTokens ''SELECT id FROM usuarios WHERE nome = 'quem?' AND id = ?''
     = ''SELECT id FROM usuarios WHERE nome = 'quem?' AND id = $1''
   \<and> convertParams Sqlite ''SELECT id FROM usuarios WHERE nome = 'quem?' AND id = ?'' [JNum 5]
     = (''SELECT id FROM usuarios WHERE nome = 'quem?' AND id = ?'', [JNum 5])"
  by code_simp

section \<open>Placeholder rewriting keeps the kind of a statement\<close>

text \<open>
  The rewriting only touches question marks, so a keyword test on the rewritten text
  (which is what the networked branch classifies) answers as on the neutral text.
\<close>

lemma string_of_nat_digits: "set (string_of_nat n) \<subseteq> set ''0123456789''"
proof (induction n rule: string_of_nat.induct)
  case (1 n)
  show ?case
  proof (cases "n < 10")
    case True
    then have "''0123456789'' ! n \<in> set ''0123456789''"
      by (intro nth_mem) simp
    with True show ?thesis
      by (subst string_of_nat.simps) simp
  next
    case False
    have "''0123456789'' ! (n mod 10) \<in> set ''0123456789''"
      by (intro nth_mem) simp
    with False 1 show ?thesis
      by (subst string_of_nat.simps) simp
  qed
qed

lemma digit_not_space: "c \<in> set (string_of_nat n) \<Longrightarrow> \<not> isSpace c"
  using string_of_nat_digits [of n] by (auto simp: isSpace_def)

lemma startsWith_Cons_neq: "p \<noteq> [] \<Longrightarrow> hd p \<noteq> c \<Longrightarrow> \<not> startsWith (c # s) p"
  by (cases p) (auto simp: startsWith_def)

lemma startsWith_Cons_Cons:
  "startsWith (c # s) (q # qs) = (c = q \<and> startsWith s qs)"
  by (auto simp: startsWith_def)

lemma startsWith_Nil [simp]: "startsWith s []"
  by (simp add: startsWith_def)

lemma startsWith_replaceMarks:
  "CHR ''?'' \<notin> set p \<Longrightarrow> CHR ''$'' \<notin> set p
    \<Longrightarrow> startsWith (replaceMarks i t) p = startsWith t p"
proof (induction t arbitrary: p i)
  case Nil
  then show ?case by simp
next
  case (Cons c cs)
  show ?case
  proof (cases p)
    case Nil
    then show ?thesis by simp
  next
    case (Cons q qs)
    with Cons.prems Cons.IH [of qs i] show ?thesis
      by (auto simp: startsWith_Cons_Cons)
  qed
qed

lemma upperChar_mark [simp]: "upperChar (CHR ''?'') = CHR ''?''" "upperChar (CHR ''$'') = CHR ''$''"
  by (simp_all add: upperChar_def)

lemma startsWith_upper_replaceMarks:
  "CHR ''?'' \<notin> set p \<Longrightarrow> CHR ''$'' \<notin> set p
    \<Longrightarrow> startsWith (toUpperCase (replaceMarks i t)) p = startsWith (toUpperCase t) p"
proof (induction t arbitrary: p i)
  case Nil
  then show ?case by simp
next
  case (Cons c cs)
  show ?case
  proof (cases p)
    case Nil
    then show ?thesis by simp
  next
    case (Cons q qs)
    with Cons.prems Cons.IH [of qs i] show ?thesis
      by (auto simp: startsWith_Cons_Cons toUpperCase_def)
  qed
qed

lemma mark_not_space [simp]: "\<not> isSpace (CHR ''?'')" "\<not> isSpace (CHR ''$'')"
  by (simp_all add: isSpace_def)

lemma dropWhile_replaceMarks:
  "dropWhile isSpace (replaceMarks i s) = replaceMarks i (dropWhile isSpace s)"
  by (induction s) auto

lemma stripR_Cons:
  "rev (dropWhile P (rev (c # cs)))
     = (if (\<forall>x\<in>set cs. P x) \<and> P c then [] else c # rev (dropWhile P (rev cs)))"
  by (auto simp: dropWhile_append)

lemma stripR_append_keep:
  "\<forall>x\<in>set a. \<not> P x \<Longrightarrow> rev (dropWhile P (rev (a @ b))) = a @ rev (dropWhile P (rev b))"
proof (induction a)
  case Nil
  then show ?case by simp
next
  case (Cons x a)
  then have "rev (dropWhile P (rev (x # (a @ b)))) = x # rev (dropWhile P (rev (a @ b)))"
    by (subst stripR_Cons) simp
  with Cons show ?case by simp
qed

lemma all_space_replaceMarks:
  "(\<forall>x\<in>set (replaceMarks i s). isSpace x) = (\<forall>x\<in>set s. isSpace x)"
  by (induction s arbitrary: i) auto

lemma stripR_replaceMarks:
  "rev (dropWhile isSpace (rev (replaceMarks i s)))
     = replaceMarks i (rev (dropWhile isSpace (rev s)))"
proof (induction s arbitrary: i)
  case Nil
  then show ?case by simp
next
  case (Cons c cs)
  show ?case
  proof (cases "c = CHR ''?''")
    case True
    have "rev (dropWhile isSpace (rev (''$'' @ string_of_nat i @ replaceMarks (Suc i) cs)))
        = ''$'' @ string_of_nat i @ rev (dropWhile isSpace (rev (replaceMarks (Suc i) cs)))"
      using stripR_append_keep [of "''$'' @ string_of_nat i" isSpace "replaceMarks (Suc i) cs"]
      by (auto simp: digit_not_space)
    moreover have "rev (dropWhile isSpace (rev (c # cs))) = c # rev (dropWhile isSpace (rev cs))"
      using True by (subst stripR_Cons) simp
    ultimately show ?thesis
      using True Cons [of "Suc i"] by simp
  next
    case False
    then have "rev (dropWhile isSpace (rev (replaceMarks i (c # cs))))
        = (if (\<forall>x\<in>set cs. isSpace x) \<and> isSpace c then []
           else c # rev (dropWhile isSpace (rev (replaceMarks i cs))))"
      using stripR_Cons [of isSpace c "replaceMarks i cs"]
      by (simp add: all_space_replaceMarks)
    with False Cons [of i] show ?thesis
      by (simp add: stripR_Cons del: rev.simps)
  qed
qed

lemma trim_replaceMarks: "trim (replaceMarks i s) = replaceMarks i (trim s)"
  by (simp add: trim_def dropWhile_replaceMarks stripR_replaceMarks)

lemma sqlUpper_replaceMarks:
  "CHR ''?'' \<notin> set p \<Longrightarrow> CHR ''$'' \<notin> set p
    \<Longrightarrow> startsWith (sqlUpper (replaceMarks i s)) p = startsWith (sqlUpper s) p"
  by (simp add: sqlUpper_def trim_replaceMarks startsWith_upper_replaceMarks)

lemma includesStr_digits:
  "set ds \<subseteq> set ''0123456789'' \<Longrightarrow> p \<noteq> [] \<Longrightarrow> hd p \<notin> set ''0123456789''
    \<Longrightarrow> includesStr (ds @ r) p = includesStr r p"
proof (induction ds)
  case Nil
  then show ?case by simp
next
  case (Cons d ds)
  then have "\<not> startsWith (d # ds @ r) p"
    by (intro startsWith_Cons_neq) auto
  with Cons show ?case by simp
qed

lemma includesStr_replaceMarks:
  assumes "p \<noteq> []" "CHR ''?'' \<notin> set p" "CHR ''$'' \<notin> set p" "hd p \<notin> set ''0123456789''"
  shows "includesStr (replaceMarks i s) p = includesStr s p"
proof (induction s arbitrary: i)
  case Nil
  then show ?case by simp
next
  case (Cons c cs)
  show ?case
  proof (cases "c = CHR ''?''")
    case True
    have a: "\<not> startsWith (CHR ''$'' # string_of_nat i @ replaceMarks (Suc i) cs) p"
      using assms by (intro startsWith_Cons_neq) (auto simp: neq_Nil_conv)
    have b: "\<not> startsWith (CHR ''?'' # cs) p"
      using assms by (intro startsWith_Cons_neq) (auto simp: neq_Nil_conv)
    have "includesStr (string_of_nat i @ replaceMarks (Suc i) cs) p
        = includesStr (replaceMarks (Suc i) cs) p"
      using assms by (intro includesStr_digits string_of_nat_digits)
    with a b True Cons [of "Suc i"] show ?thesis by simp
  next
    case False
    have "startsWith (replaceMarks i (c # cs)) p = startsWith (c # cs) p"
      using assms by (intro startsWith_replaceMarks)
    with False Cons [of i] show ?thesis by simp
  qed
qed

lemma finalSql_replaceMarks_plain:
  "\<not> startsWith (sqlUpper sql) ''INSERT'' \<or> includesStr sql ''RETURNING''
    \<Longrightarrow> finalSql (replaceMarks i sql) = replaceMarks i sql"
  using sqlUpper_replaceMarks [of "''INSERT''" i sql]
    includesStr_replaceMarks [of "''RETURNING''" i sql]
  by (auto simp: finalSql_def)

lemma finalSql_replaceMarks_insert:
  "startsWith (sqlUpper sql) ''INSERT'' \<Longrightarrow> \<not> includesStr sql ''RETURNING''
    \<Longrightarrow> finalSql (replaceMarks i sql) = stripTerminator (replaceMarks i sql) @ '' RETURNING id''"
  using sqlUpper_replaceMarks [of "''INSERT''" i sql]
    includesStr_replaceMarks [of "''RETURNING''" i sql]
  by (auto simp: finalSql_def)

section \<open>The facade: one call per query, and what it returns\<close>

lemma select_not_insert:
  "startsWith u ''SELECT'' \<Longrightarrow> \<not> startsWith u ''INSERT''"
  by (cases u) (auto simp: startsWith_def)

lemma with_not_select_insert:
  "startsWith u ''WITH'' \<or> startsWith u ''PRAGMA''
    \<Longrightarrow> \<not> startsWith u ''SELECT'' \<and> \<not> startsWith u ''INSERT''"
  by (cases u) (auto simp: startsWith_def)

lemma query_postgres_unfold:
  "query Postgres drv sql params =
     (case pool_query drv (finalSql (replaceMarks 1 sql)) params of
        Inl e \<Rightarrow> ([PoolQuery (finalSql (replaceMarks 1 sql)) params], Inl e)
      | Inr result \<Rightarrow>
          ([PoolQuery (finalSql (replaceMarks 1 sql)) params], Inr (normalizePg result)))"
  by (simp add: query_def convertParams_def isPostgres_def pg_query_def split: sum.splits)

lemma queryOne_postgres_unfold:
  "queryOne Postgres drv sql params =
     (case pool_query drv (replaceMarks 1 sql) params of
        Inl e \<Rightarrow> ([PoolQuery (replaceMarks 1 sql) params], Inl e)
      | Inr result \<Rightarrow> ([PoolQuery (replaceMarks 1 sql) params], Inr (firstRow (pg_rows result))))"
  by (simp add: queryOne_def convertParams_def isPostgres_def pg_queryOne_def pg_query_def
      split: sum.splits)

lemma queryOne_sqlite_unfold:
  "queryOne Sqlite drv sql params =
     (case query Sqlite drv sql params of
        (calls, Inl e) \<Rightarrow> (calls, Inl e)
      | (calls, Inr result) \<Rightarrow> (calls, Inr (firstRow (rows result))))"
  by (simp add: queryOne_def query_def isPostgres_def db_queryOne_def)

lemma one_call_queryOne: "length (fst (queryOne a drv sql params)) = 1"
  by (cases a)
    (auto simp: queryOne_def db_queryOne_def pg_queryOne_def query_def db_query_def
      convertParams_def isPostgres_def pg_query_def
      split: sum.splits prod.splits)

text \<open>
  On the networked backend the facade knows no client: every call of \<^verbatim>\<open>query\<close> and
  \<^verbatim>\<open>queryOne\<close> ends in \<^verbatim>\<open>pool.query\<close>.
\<close>

lemma facade_reaches_pool:
  "fst (query Postgres drv sql params) = [PoolQuery (finalSql (replaceMarks 1 sql)) params]
   \<and> fst (queryOne Postgres drv sql params) = [PoolQuery (replaceMarks 1 sql) params]"
  by (simp add: query_postgres_unfold queryOne_postgres_unfold split: sum.splits)

text \<open>\<^verbatim>\<open>execute\<close> of db-adapter.js returns what \<^verbatim>\<open>query\<close> returns.\<close>

lemma execute_is_query: "execute a drv sql params = query a drv sql params"
proof (cases a)
  case Postgres
  then show ?thesis
    by (simp add: execute_def query_def pg_execute_def isPostgres_def split: prod.splits)
next
  case Sqlite
  then show ?thesis
    by (auto simp: execute_def query_def db_query_def isPostgres_def convertParams_def
        numOrNull_def split: prod.splits sum.splits)
qed

text \<open>
  C10. On the embedded backend \<^verbatim>\<open>query\<close> (queryMany) classifies the statement by the
  start of its text after trimming and upper-casing. A text beginning with SELECT goes to
  \<^verbatim>\<open>db.all\<close> and its rows fill \<open>rows\<close>, with \<open>rowCount\<close> their number and no
  \<open>insertId\<close>. A text beginning with INSERT goes to \<^verbatim>\<open>db.run\<close> and returns no rows,
  the engine's change count and its last inserted id (null when that id is 0). Every
  other text, those beginning with WITH or PRAGMA included, goes to \<^verbatim>\<open>db.run\<close> and
  returns no rows, no \<open>insertId\<close> and the engine's change count.
\<close>

theorem sqlite_query_classifies:
  "(startsWith (sqlUpper sql) ''SELECT'' \<and> db_all drv sql params = Inr rs \<longrightarrow>
      query Sqlite drv sql params
        = ([DbAll sql params], Inr \<lparr>rows = rs, rowCount = length rs, insertId = JNull\<rparr>))
   \<and> (startsWith (sqlUpper sql) ''INSERT'' \<and> db_run drv sql params = Inr this \<longrightarrow>
      query Sqlite drv sql params
        = ([DbRun sql params],
           Inr \<lparr>rows = [], rowCount = changes this,
                insertId = (if lastID this = 0 then JNull else JNum (int (lastID this)))\<rparr>))
   \<and> (\<not> startsWith (sqlUpper sql) ''SELECT'' \<and> \<not> startsWith (sqlUpper sql) ''INSERT''
        \<and> db_run drv sql params = Inr this \<longrightarrow>
      query Sqlite drv sql params
        = ([DbRun sql params], Inr \<lparr>rows = [], rowCount = changes this, insertId = JNull\<rparr>))
   \<and> (startsWith (sqlUpper sql) ''WITH'' \<or> startsWith (sqlUpper sql) ''PRAGMA'' \<longrightarrow>
        \<not> startsWith (sqlUpper sql) ''SELECT'' \<and> \<not> startsWith (sqlUpper sql) ''INSERT'')"
  using select_not_insert [of "sqlUpper sql"] with_not_select_insert [of "sqlUpper sql"]
  by (auto simp: query_def db_query_def convertParams_def isPostgres_def numOrNull_def)

theorem sqlite_query_classifies_witness:
  "query Sqlite sampleDriver ''  select id from veiculos '' []
     = ([DbAll ''  select id from veiculos '' []],
        Inr \<lparr>rows = [[(''id'', JNum 1)], [(''id'', JNum 2)]], rowCount = 2, insertId = JNull\<rparr>)
   \<and> query Sqlite sampleDriver ''INSERT INTO veiculos (placa) VALUES (?)'' [JStr ''XYZ9A87'']
     = ([DbRun ''INSERT INTO veiculos (placa) VALUES (?)'' [JStr ''XYZ9A87'']],
        Inr \<lparr>rows = [], rowCount = 1, insertId = JNum 7\<rparr>)
   \<and> query Sqlite sampleDriver ''WITH v AS (SELECT id FROM veiculos) SELECT id FROM v'' []
     = ([DbRun ''WITH v AS (SELECT id FROM veiculos) SELECT id FROM v'' []],
        Inr \<lparr>rows = [], rowCount = 0, insertId = JNull\<rparr>)"
proof -
  have s: "startsWith (sqlUpper ''  select id from veiculos '') ''SELECT''"
    and i: "startsWith (sqlUpper ''INSERT INTO veiculos (placa) VALUES (?)'') ''INSERT''"
    and w: "startsWith (sqlUpper ''WITH v AS (SELECT id FROM veiculos) SELECT id FROM v'') ''WITH''"
    by (simp_all add: sqlUpper_def toUpperCase_def trim_def isSpace_def upperChar_def
        startsWith_def)
  have a: "db_all sampleDriver ''  select id from veiculos '' []
      = Inr [[(''id'', JNum 1)], [(''id'', JNum 2)]]"
    and b: "db_run sampleDriver ''INSERT INTO veiculos (placa) VALUES (?)'' [JStr ''XYZ9A87'']
      = Inr \<lparr>changes = 1, lastID = 7\<rparr>"
    and c: "db_run sampleDriver ''WITH v AS (SELECT id FROM veiculos) SELECT id FROM v'' []
      = Inr \<lparr>changes = 0, lastID = 8\<rparr>"
    by (simp_all add: sampleDriver_def)
  show ?thesis
    using s i w a b c
      sqlite_query_classifies [of "''  select id from veiculos ''" sampleDriver
        "[]" "[[(''id'', JNum 1)], [(''id'', JNum 2)]]"]
      sqlite_query_classifies [of "''INSERT INTO veiculos (placa) VALUES (?)''" sampleDriver
        "[JStr ''XYZ9A87'']" _ "\<lparr>changes = 1, lastID = 7\<rparr>"]
      sqlite_query_classifies [of "''WITH v AS (SELECT id FROM veiculos) SELECT id FROM v''"
        sampleDriver "[]" _ "\<lparr>changes = 0, lastID = 8\<rparr>"]
    by simp
qed

text \<open>
  C7, as the claim states it, fails: neither backend looks at the number of affected
  rows. A two-row INSERT yields a non-null \<open>insertId\<close> on both: the id of the first
  returned row on the networked backend, the engine's last inserted id on the embedded
  one.
\<close>

theorem insertId_many_rows_counterexample:
  "snd (query Postgres sampleDriver ''INSERT INTO veiculos (placa) VALUES (?), (?)''
          [JStr ''AAA0A00'', JStr ''BBB1B11''])
     = Inr \<lparr>rows = [[(''id'', JNum 7)], [(''id'', JNum 8)]], rowCount = 2, insertId = JNum 7\<rparr>
   \<and> snd (query Sqlite sampleDriver ''INSERT INTO veiculos (placa) VALUES (?), (?)''
          [JStr ''AAA0A00'', JStr ''BBB1B11''])
     = Inr \<lparr>rows = [], rowCount = 2, insertId = JNum 8\<rparr>"
  by code_simp

text \<open>
  C7, amended. For an INSERT whose text does not contain the word RETURNING (in upper
  case, anywhere in the text), on the networked backend the statement is sent with
  \<^verbatim>\<open> RETURNING id\<close> appended (after removing a trailing terminator), the rows that
  come back are the result's rows, and \<open>insertId\<close> is the \<open>id\<close> of the first of
  them when that value is truthy, and null when no row comes back or the row has no
  truthy \<open>id\<close>. On the embedded backend an INSERT returns no rows, the engine's
  change count, and as \<open>insertId\<close> the engine's last inserted id when it is not 0,
  and null otherwise. The number of affected rows plays no part in \<open>insertId\<close> on
  either backend. What happens to an INSERT whose text contains RETURNING is not part
  of this statement.
\<close>

theorem insertId_follows_driver:
  "(startsWith (sqlUpper sql) ''INSERT'' \<and> \<not> includesStr sql ''RETURNING''
      \<and> pool_query drv (stripTerminator (replaceMarks 1 sql) @ '' RETURNING id'') params
          = Inr \<lparr>pg_rows = returned, pg_rowCount = n\<rparr> \<longrightarrow>
      query Postgres drv sql params
        = ([PoolQuery (stripTerminator (replaceMarks 1 sql) @ '' RETURNING id'') params],
           Inr \<lparr>rows = returned,
                rowCount = (case n of None \<Rightarrow> 0 | Some c \<Rightarrow> c),
                insertId
                  = (case returned of
                       [] \<Rightarrow> JNull
                     | r # others \<Rightarrow>
                         (case map_of r ''id'' of
                            None \<Rightarrow> JNull
                          | Some key \<Rightarrow> if truthy key then key else JNull))\<rparr>))
   \<and> (startsWith (sqlUpper sql) ''INSERT''
      \<and> db_run drv sql params = Inr \<lparr>changes = m, lastID = k\<rparr> \<longrightarrow>
      query Sqlite drv sql params
        = ([DbRun sql params],
           Inr \<lparr>rows = [], rowCount = m,
                insertId = (if k = 0 then JNull else JNum (int k))\<rparr>))"
proof (intro conjI impI; elim conjE)
  assume "startsWith (sqlUpper sql) ''INSERT''" "\<not> includesStr sql ''RETURNING''"
    and "pool_query drv (stripTerminator (replaceMarks 1 sql) @ '' RETURNING id'') params
          = Inr \<lparr>pg_rows = returned, pg_rowCount = n\<rparr>"
  then show "query Postgres drv sql params
        = ([PoolQuery (stripTerminator (replaceMarks 1 sql) @ '' RETURNING id'') params],
           Inr \<lparr>rows = returned,
                rowCount = (case n of None \<Rightarrow> 0 | Some c \<Rightarrow> c),
                insertId
                  = (case returned of
                       [] \<Rightarrow> JNull
                     | r # others \<Rightarrow>
                         (case map_of r ''id'' of
                            None \<Rightarrow> JNull
                          | Some key \<Rightarrow> if truthy key then key else JNull))\<rparr>)"
    by (simp add: query_postgres_unfold finalSql_replaceMarks_insert normalizePg_def
        firstId_def countOrZero_def)
next
  assume i: "startsWith (sqlUpper sql) ''INSERT''"
    and r: "db_run drv sql params = Inr \<lparr>changes = m, lastID = k\<rparr>"
  from i have "\<not> startsWith (sqlUpper sql) ''SELECT''"
    using select_not_insert [of "sqlUpper sql"] by blast
  with i r show "query Sqlite drv sql params
        = ([DbRun sql params],
           Inr \<lparr>rows = [], rowCount = m,
                insertId = (if k = 0 then JNull else JNum (int k))\<rparr>)"
    by (simp add: query_def db_query_def convertParams_def isPostgres_def numOrNull_def)
qed

theorem insertId_follows_driver_witness:
  "query Postgres sampleDriver ''INSERT INTO veiculos (placa) VALUES (?)'' [JStr ''XYZ9A87'']
     = ([PoolQuery ''INSERT INTO veiculos (placa) VALUES ($1) RETURNING id'' [JStr ''XYZ9A87'']],
        Inr \<lparr>rows = [[(''id'', JNum 7)]], rowCount = 1, insertId = JNum 7\<rparr>)
   \<and> query Sqlite sampleDriver ''INSERT INTO veiculos (placa) VALUES (?)'' [JStr ''XYZ9A87'']
     = ([DbRun ''INSERT INTO veiculos (placa) VALUES (?)'' [JStr ''XYZ9A87'']],
        Inr \<lparr>rows = [], rowCount = 1, insertId = JNum 7\<rparr>)"
proof -
  have i: "startsWith (sqlUpper ''INSERT INTO veiculos (placa) VALUES (?)'') ''INSERT''"
    by (simp add: sqlUpper_def toUpperCase_def trim_def isSpace_def upperChar_def startsWith_def)
  have n: "\<not> includesStr ''INSERT INTO veiculos (placa) VALUES (?)'' ''RETURNING''"
    by (simp add: startsWith_def)
  have f: "stripTerminator (replaceMarks 1 ''INSERT INTO veiculos (placa) VALUES (?)'')
        @ '' RETURNING id'' = ''INSERT INTO veiculos (placa) VALUES ($1) RETURNING id''"
    by code_simp
  have p: "pool_query sampleDriver ''INSERT INTO veiculos (placa) VALUES ($1) RETURNING id''
        [JStr ''XYZ9A87''] = Inr \<lparr>pg_rows = [[(''id'', JNum 7)]], pg_rowCount = Some 1\<rparr>"
    by (simp add: sampleDriver_def)
  have r: "db_run sampleDriver ''INSERT INTO veiculos (placa) VALUES (?)'' [JStr ''XYZ9A87'']
        = Inr \<lparr>changes = 1, lastID = 7\<rparr>"
    by (simp add: sampleDriver_def)
  show ?thesis
    using i n p r
      insertId_follows_driver [of "''INSERT INTO veiculos (placa) VALUES (?)''" sampleDriver
        "[JStr ''XYZ9A87'']" "[[(''id'', JNum 7)]]" "Some 1" 1 7, unfolded f]
    by (simp add: startsWith_def)
qed

text \<open>
  C6, as the claim states it, fails for INSERT on the networked backend:
  \<^verbatim>\<open>queryOne\<close> sends the statement as rewritten, without the RETURNING clause that
  \<^verbatim>\<open>query\<close> appends, and so returns null where the first row of \<^verbatim>\<open>query\<close> is
  the generated id.
\<close>

theorem queryOne_insert_counterexample:
  "queryOne Postgres sampleDriver ''INSERT INTO veiculos (placa) VALUES (?)'' [JStr ''XYZ9A87'']
     = ([PoolQuery ''INSERT INTO veiculos (placa) VALUES ($1)'' [JStr ''XYZ9A87'']], Inr None)
   \<and> query Postgres sampleDriver ''INSERT INTO veiculos (placa) VALUES (?)'' [JStr ''XYZ9A87'']
     = ([PoolQuery ''INSERT INTO veiculos (placa) VALUES ($1) RETURNING id'' [JStr ''XYZ9A87'']],
        Inr \<lparr>rows = [[(''id'', JNum 7)]], rowCount = 1, insertId = JNum 7\<rparr>)
   \<and> firstRow [[(''id'', JNum 7)]] = Some [(''id'', JNum 7)]"
  by code_simp

text \<open>
  C6, amended. On the embedded backend for every statement, and on the networked
  backend for every statement that does not begin with INSERT or that mentions
  RETURNING, \<^verbatim>\<open>queryOne\<close> returns the first row of the rows \<^verbatim>\<open>query\<close> returns,
  or null when there is none, and makes the same single driver call. On the networked
  backend \<^verbatim>\<open>queryOne\<close> always sends the statement with only the placeholders
  rewritten. On both backends \<^verbatim>\<open>queryOne\<close> reaches the driver exactly once.
\<close>

theorem queryOne_is_first_row:
  "queryOne Sqlite drv sql params
     = (case query Sqlite drv sql params of
          (calls, Inl e) \<Rightarrow> (calls, Inl e)
        | (calls, Inr result) \<Rightarrow> (calls, Inr (firstRow (rows result))))
   \<and> (\<not> startsWith (sqlUpper sql) ''INSERT'' \<or> includesStr sql ''RETURNING'' \<longrightarrow>
        queryOne Postgres drv sql params
          = (case query Postgres drv sql params of
               (calls, Inl e) \<Rightarrow> (calls, Inl e)
             | (calls, Inr result) \<Rightarrow> (calls, Inr (firstRow (rows result)))))
   \<and> firstRow [] = None \<and> firstRow (r # rs) = Some r
   \<and> fst (queryOne Postgres drv sql params) = [PoolQuery (replaceMarks 1 sql) params]
   \<and> length (fst (queryOne a drv sql params)) = 1"
proof (intro conjI impI)
  show "queryOne Sqlite drv sql params
     = (case query Sqlite drv sql params of
          (calls, Inl e) \<Rightarrow> (calls, Inl e)
        | (calls, Inr result) \<Rightarrow> (calls, Inr (firstRow (rows result))))"
    by (rule queryOne_sqlite_unfold)
  show "firstRow [] = None" "firstRow (r # rs) = Some r"
    by (simp_all add: firstRow_def)
  show "fst (queryOne Postgres drv sql params) = [PoolQuery (replaceMarks 1 sql) params]"
    by (simp add: queryOne_postgres_unfold split: sum.splits)
  show "length (fst (queryOne a drv sql params)) = 1"
    by (rule one_call_queryOne)
next
  assume "\<not> startsWith (sqlUpper sql) ''INSERT'' \<or> includesStr sql ''RETURNING''"
  then have "finalSql (replaceMarks 1 sql) = replaceMarks 1 sql"
    by (rule finalSql_replaceMarks_plain)
  then show "queryOne Postgres drv sql params
          = (case query Postgres drv sql params of
               (calls, Inl e) \<Rightarrow> (calls, Inl e)
             | (calls, Inr result) \<Rightarrow> (calls, Inr (firstRow (rows result))))"
    by (simp add: queryOne_postgres_unfold query_postgres_unfold normalizePg_def
        split: sum.splits)
qed

theorem queryOne_is_first_row_witness:
  "queryOne Postgres sampleDriver ''SELECT id, placa FROM veiculos WHERE id = ?'' [JNum 1]
     = ([PoolQuery ''SELECT id, placa FROM veiculos WHERE id = $1'' [JNum 1]],
        Inr (Some [(''id'', JNum 1), (''placa'', JStr ''ABC1D23'')]))
   \<and> queryOne Sqlite sampleDriver ''SELECT id, placa FROM veiculos WHERE id = ?'' [JNum 1]
     = ([DbAll ''SELECT id, placa FROM veiculos WHERE id = ?'' [JNum 1]],
        Inr (Some [(''id'', JNum 1), (''placa'', JStr ''ABC1D23'')]))"
proof -
  have n: "\<not> startsWith (sqlUpper ''SELECT id, placa FROM veiculos WHERE id = ?'') ''INSERT''"
    by (simp add: sqlUpper_def toUpperCase_def trim_def isSpace_def upperChar_def startsWith_def)
  have q: "query Postgres sampleDriver ''SELECT id, placa FROM veiculos WHERE id = ?'' [JNum 1]
     = ([PoolQuery ''SELECT id, placa FROM veiculos WHERE id = $1'' [JNum 1]],
        Inr \<lparr>rows = [[(''id'', JNum 1), (''placa'', JStr ''ABC1D23'')]], rowCount = 1,
             insertId = JNum 1\<rparr>)"
    by code_simp
  have s: "query Sqlite sampleDriver ''SELECT id, placa FROM veiculos WHERE id = ?'' [JNum 1]
     = ([DbAll ''SELECT id, placa FROM veiculos WHERE id = ?'' [JNum 1]],
        Inr \<lparr>rows = [[(''id'', JNum 1), (''placa'', JStr ''ABC1D23'')]], rowCount = 1,
             insertId = JNull\<rparr>)"
    by code_simp
  show ?thesis
    using n q s
      queryOne_is_first_row [of sampleDriver "''SELECT id, placa FROM veiculos WHERE id = ?''"
        "[JNum 1]"]
    by (simp add: firstRow_def)
qed

text \<open>
  C5, as the claim states it, fails. For an INSERT over the same data the networked
  backend returns the rows of the appended RETURNING clause, with a field \<open>id\<close>,
  where the embedded backend returns no rows. For a SELECT the facade hands on what the
  driver answers: the count of the two vehicles is the text \<^verbatim>\<open>'2'\<close> on the networked
  backend and the number 2 on the embedded one. And for a SELECT to which both drivers
  answer with the same row, \<open>insertId\<close> is that row's \<open>id\<close> on the networked
  backend and null on the embedded one.
\<close>

theorem result_shape_differs_counterexample:
  "snd (query Postgres sampleDriver ''INSERT INTO veiculos (placa) VALUES (?)'' [JStr ''XYZ9A87''])
     = Inr \<lparr>rows = [[(''id'', JNum 7)]], rowCount = 1, insertId = JNum 7\<rparr>
   \<and> snd (query Sqlite sampleDriver ''INSERT INTO veiculos (placa) VALUES (?)'' [JStr ''XYZ9A87''])
     = Inr \<lparr>rows = [], rowCount = 1, insertId = JNum 7\<rparr>
   \<and> resultShape \<lparr>rows = [[(''id'', JNum 7)]], rowCount = 1, insertId = JNum 7\<rparr>
     \<noteq> resultShape \<lparr>rows = [], rowCount = 1, insertId = JNum 7\<rparr>
   \<and> snd (query Postgres sampleDriver ''SELECT COUNT(*) as count FROM veiculos'' [])
     = Inr \<lparr>rows = [[(''count'', JStr ''2'')]], rowCount = 1, insertId = JNull\<rparr>
   \<and> snd (query Sqlite sampleDriver ''SELECT COUNT(*) as count FROM veiculos'' [])
     = Inr \<lparr>rows = [[(''count'', JNum 2)]], rowCount = 1, insertId = JNull\<rparr>
   \<and> resultShape \<lparr>rows = [[(''count'', JStr ''2'')]], rowCount = 1, insertId = JNull\<rparr>
     \<noteq> resultShape \<lparr>rows = [[(''count'', JNum 2)]], rowCount = 1, insertId = JNull\<rparr>
   \<and> snd (query Postgres sampleDriver ''SELECT id, placa FROM veiculos WHERE id = ?'' [JNum 1])
     = Inr \<lparr>rows = [[(''id'', JNum 1), (''placa'', JStr ''ABC1D23'')]], rowCount = 1,
            insertId = JNum 1\<rparr>
   \<and> snd (query Sqlite sampleDriver ''SELECT id, placa FROM veiculos WHERE id = ?'' [JNum 1])
     = Inr \<lparr>rows = [[(''id'', JNum 1), (''placa'', JStr ''ABC1D23'')]], rowCount = 1,
            insertId = JNull\<rparr>
   \<and> resultShape \<lparr>rows = [[(''id'', JNum 1), (''placa'', JStr ''ABC1D23'')]], rowCount = 1,
                   insertId = JNum 1\<rparr>
     \<noteq> resultShape \<lparr>rows = [[(''id'', JNum 1), (''placa'', JStr ''ABC1D23'')]], rowCount = 1,
                     insertId = JNull\<rparr>"
  by code_simp

text \<open>
  C5, amended. The facade hands the rows of the active driver on as they are: it
  renames no field and converts no value. For a statement that begins with SELECT,
  \<^verbatim>\<open>query\<close> returns on the networked backend the rows the pool answers, with the
  row count the pool reports (0 when it reports none), and on the embedded backend the
  rows \<^verbatim>\<open>db.all\<close> answers, with their number; \<^verbatim>\<open>queryOne\<close> returns the first of
  these rows, or null. So rows, row count and the row of \<^verbatim>\<open>queryOne\<close> are the same
  on both backends, field names and value types included, whenever the two drivers
  answer with the same rows and the pool reports their number, and the rows differ
  between the backends exactly as the drivers' answers differ. The \<open>insertId\<close> of a
  SELECT is not part of this statement. For a statement that begins with neither SELECT
  nor INSERT and to which the pool answers without rows (an UPDATE or a DELETE),
  \<^verbatim>\<open>query\<close> returns no rows, no \<open>insertId\<close> and the number of changed rows the
  driver reports, on both backends. For an INSERT whose text does not contain RETURNING
  the rows differ by backend: the networked backend returns the rows of the clause it
  appends, the embedded backend none.
\<close>

theorem facade_hands_rows_through:
  "(startsWith (sqlUpper sql) ''SELECT''
    \<and> pool_query drv (replaceMarks 1 sql) params = Inr \<lparr>pg_rows = served, pg_rowCount = n\<rparr>
    \<and> db_all drv sql params = Inr stored \<longrightarrow>
      (\<exists>res. snd (query Postgres drv sql params) = Inr res
          \<and> rows res = served \<and> rowCount res = (case n of None \<Rightarrow> 0 | Some c \<Rightarrow> c))
      \<and> (\<exists>res. snd (query Sqlite drv sql params) = Inr res
          \<and> rows res = stored \<and> rowCount res = length stored)
      \<and> snd (queryOne Postgres drv sql params) = Inr (firstRow served)
      \<and> snd (queryOne Sqlite drv sql params) = Inr (firstRow stored))
   \<and> (\<not> startsWith (sqlUpper sql) ''SELECT'' \<and> \<not> startsWith (sqlUpper sql) ''INSERT''
    \<and> pool_query drv (replaceMarks 1 sql) params = Inr \<lparr>pg_rows = [], pg_rowCount = n\<rparr>
    \<and> db_run drv sql params = Inr \<lparr>changes = m, lastID = k\<rparr> \<longrightarrow>
      snd (query Postgres drv sql params)
        = Inr \<lparr>rows = [], rowCount = (case n of None \<Rightarrow> 0 | Some c \<Rightarrow> c), insertId = JNull\<rparr>
      \<and> snd (query Sqlite drv sql params) = Inr \<lparr>rows = [], rowCount = m, insertId = JNull\<rparr>)
   \<and> (startsWith (sqlUpper sql) ''INSERT'' \<and> \<not> includesStr sql ''RETURNING''
    \<and> pool_query drv (stripTerminator (replaceMarks 1 sql) @ '' RETURNING id'') params
        = Inr \<lparr>pg_rows = served, pg_rowCount = n\<rparr>
    \<and> db_run drv sql params = Inr \<lparr>changes = m, lastID = k\<rparr> \<longrightarrow>
      (\<exists>res. snd (query Postgres drv sql params) = Inr res \<and> rows res = served)
      \<and> (\<exists>res. snd (query Sqlite drv sql params) = Inr res \<and> rows res = []))"
proof (intro conjI impI; elim conjE)
  assume s: "startsWith (sqlUpper sql) ''SELECT''"
    and p: "pool_query drv (replaceMarks 1 sql) params = Inr \<lparr>pg_rows = served, pg_rowCount = n\<rparr>"
    and a: "db_all drv sql params = Inr stored"
  from s have "\<not> startsWith (sqlUpper sql) ''INSERT''"
    by (rule select_not_insert)
  then have f: "finalSql (replaceMarks 1 sql) = replaceMarks 1 sql"
    by (intro finalSql_replaceMarks_plain disjI1)
  have q: "query Sqlite drv sql params
      = ([DbAll sql params], Inr \<lparr>rows = stored, rowCount = length stored, insertId = JNull\<rparr>)"
    using s a by (simp add: query_def db_query_def convertParams_def isPostgres_def)
  show "\<exists>res. snd (query Postgres drv sql params) = Inr res
          \<and> rows res = served \<and> rowCount res = (case n of None \<Rightarrow> 0 | Some c \<Rightarrow> c)"
    and "\<exists>res. snd (query Sqlite drv sql params) = Inr res
          \<and> rows res = stored \<and> rowCount res = length stored"
    and "snd (queryOne Postgres drv sql params) = Inr (firstRow served)"
    and "snd (queryOne Sqlite drv sql params) = Inr (firstRow stored)"
    using p f q
    by (simp_all add: query_postgres_unfold queryOne_postgres_unfold queryOne_sqlite_unfold
        normalizePg_def countOrZero_def)
next
  assume ns: "\<not> startsWith (sqlUpper sql) ''SELECT''"
    and ni: "\<not> startsWith (sqlUpper sql) ''INSERT''"
    and p: "pool_query drv (replaceMarks 1 sql) params = Inr \<lparr>pg_rows = [], pg_rowCount = n\<rparr>"
    and r: "db_run drv sql params = Inr \<lparr>changes = m, lastID = k\<rparr>"
  from ni have f: "finalSql (replaceMarks 1 sql) = replaceMarks 1 sql"
    by (intro finalSql_replaceMarks_plain disjI1)
  show "snd (query Postgres drv sql params)
        = Inr \<lparr>rows = [], rowCount = (case n of None \<Rightarrow> 0 | Some c \<Rightarrow> c), insertId = JNull\<rparr>"
    using p f
    by (simp add: query_postgres_unfold normalizePg_def countOrZero_def firstId_def)
  show "snd (query Sqlite drv sql params) = Inr \<lparr>rows = [], rowCount = m, insertId = JNull\<rparr>"
    using ns ni r
    by (simp add: query_def db_query_def convertParams_def isPostgres_def)
next
  assume i: "startsWith (sqlUpper sql) ''INSERT''" and nr: "\<not> includesStr sql ''RETURNING''"
    and p: "pool_query drv (stripTerminator (replaceMarks 1 sql) @ '' RETURNING id'') params
        = Inr \<lparr>pg_rows = served, pg_rowCount = n\<rparr>"
    and r: "db_run drv sql params = Inr \<lparr>changes = m, lastID = k\<rparr>"
  from i have ns: "\<not> startsWith (sqlUpper sql) ''SELECT''"
    using select_not_insert [of "sqlUpper sql"] by blast
  show "\<exists>res. snd (query Postgres drv sql params) = Inr res \<and> rows res = served"
    using i nr p
    by (simp add: query_postgres_unfold finalSql_replaceMarks_insert normalizePg_def)
  show "\<exists>res. snd (query Sqlite drv sql params) = Inr res \<and> rows res = []"
    using i ns r
    by (simp add: query_def db_query_def convertParams_def isPostgres_def)
qed

theorem facade_hands_rows_through_witness:
  "(\<exists>res. snd (query Postgres sampleDriver ''SELECT COUNT(*) as count FROM veiculos'' [])
             = Inr res
       \<and> rows res = [[(''count'', JStr ''2'')]] \<and> rowCount res = 1)
   \<and> (\<exists>res. snd (query Sqlite sampleDriver ''SELECT COUNT(*) as count FROM veiculos'' [])
             = Inr res
       \<and> rows res = [[(''count'', JNum 2)]] \<and> rowCount res = 1)
   \<and> snd (queryOne Postgres sampleDriver ''SELECT id, placa FROM veiculos WHERE id = ?''
            [JNum 1])
       = Inr (Some [(''id'', JNum 1), (''placa'', JStr ''ABC1D23'')])
   \<and> snd (queryOne Sqlite sampleDriver ''SELECT id, placa FROM veiculos WHERE id = ?''
            [JNum 1])
       = Inr (Some [(''id'', JNum 1), (''placa'', JStr ''ABC1D23'')])
   \<and> snd (query Postgres sampleDriver ''DELETE FROM veiculos WHERE id = ?'' [JNum 1])
       = Inr \<lparr>rows = [], rowCount = 1, insertId = JNull\<rparr>
   \<and> snd (query Sqlite sampleDriver ''DELETE FROM veiculos WHERE id = ?'' [JNum 1])
       = Inr \<lparr>rows = [], rowCount = 1, insertId = JNull\<rparr>
   \<and> (\<exists>res. snd (query Postgres sampleDriver ''INSERT INTO veiculos (placa) VALUES (?)''
                [JStr ''XYZ9A87'']) = Inr res
       \<and> rows res = [[(''id'', JNum 7)]])
   \<and> (\<exists>res. snd (query Sqlite sampleDriver ''INSERT INTO veiculos (placa) VALUES (?)''
                [JStr ''XYZ9A87'']) = Inr res
       \<and> rows res = [])"
proof -
  have s: "startsWith (sqlUpper ''SELECT id, placa FROM veiculos WHERE id = ?'') ''SELECT''"
    and sc: "startsWith (sqlUpper ''SELECT COUNT(*) as count FROM veiculos'') ''SELECT''"
    and ns: "\<not> startsWith (sqlUpper ''DELETE FROM veiculos WHERE id = ?'') ''SELECT''"
    and ni: "\<not> startsWith (sqlUpper ''DELETE FROM veiculos WHERE id = ?'') ''INSERT''"
    and i: "startsWith (sqlUpper ''INSERT INTO veiculos (placa) VALUES (?)'') ''INSERT''"
    by (simp_all add: sqlUpper_def toUpperCase_def trim_def isSpace_def upperChar_def
        startsWith_def)
  have nr: "\<not> includesStr ''INSERT INTO veiculos (placa) VALUES (?)'' ''RETURNING''"
    by (simp add: startsWith_def)
  have c: "replaceMarks 1 ''SELECT id, placa FROM veiculos WHERE id = ?''
      = ''SELECT id, placa FROM veiculos WHERE id = $1''"
    and cc: "replaceMarks 1 ''SELECT COUNT(*) as count FROM veiculos''
      = ''SELECT COUNT(*) as count FROM veiculos''"
    and d: "replaceMarks 1 ''DELETE FROM veiculos WHERE id = ?''
      = ''DELETE FROM veiculos WHERE id = $1''"
    and f: "stripTerminator (replaceMarks 1 ''INSERT INTO veiculos (placa) VALUES (?)'')
        @ '' RETURNING id'' = ''INSERT INTO veiculos (placa) VALUES ($1) RETURNING id''"
    by code_simp+
  have p: "pool_query sampleDriver ''SELECT id, placa FROM veiculos WHERE id = $1'' [JNum 1]
      = Inr \<lparr>pg_rows = [[(''id'', JNum 1), (''placa'', JStr ''ABC1D23'')]],
              pg_rowCount = Some 1\<rparr>"
    and a: "db_all sampleDriver ''SELECT id, placa FROM veiculos WHERE id = ?'' [JNum 1]
      = Inr [[(''id'', JNum 1), (''placa'', JStr ''ABC1D23'')]]"
    and pc: "pool_query sampleDriver ''SELECT COUNT(*) as count FROM veiculos'' []
      = Inr \<lparr>pg_rows = [[(''count'', JStr ''2'')]], pg_rowCount = Some 1\<rparr>"
    and ac: "db_all sampleDriver ''SELECT COUNT(*) as count FROM veiculos'' []
      = Inr [[(''count'', JNum 2)]]"
    and pd: "pool_query sampleDriver ''DELETE FROM veiculos WHERE id = $1'' [JNum 1]
      = Inr \<lparr>pg_rows = [], pg_rowCount = Some 1\<rparr>"
    and rd: "db_run sampleDriver ''DELETE FROM veiculos WHERE id = ?'' [JNum 1]
      = Inr \<lparr>changes = 1, lastID = 8\<rparr>"
    and pi: "pool_query sampleDriver ''INSERT INTO veiculos (placa) VALUES ($1) RETURNING id''
        [JStr ''XYZ9A87''] = Inr \<lparr>pg_rows = [[(''id'', JNum 7)]], pg_rowCount = Some 1\<rparr>"
    and ri: "db_run sampleDriver ''INSERT INTO veiculos (placa) VALUES (?)'' [JStr ''XYZ9A87'']
        = Inr \<lparr>changes = 1, lastID = 7\<rparr>"
    by (simp_all add: sampleDriver_def)
  show ?thesis
    using s sc p a pc ac ns ni pd rd i nr pi ri
      facade_hands_rows_through [of "''SELECT id, placa FROM veiculos WHERE id = ?''"
        sampleDriver "[JNum 1]" "[[(''id'', JNum 1), (''placa'', JStr ''ABC1D23'')]]" "Some 1"
        "[[(''id'', JNum 1), (''placa'', JStr ''ABC1D23'')]]", unfolded c]
      facade_hands_rows_through [of "''SELECT COUNT(*) as count FROM veiculos''"
        sampleDriver "[]" "[[(''count'', JStr ''2'')]]" "Some 1" "[[(''count'', JNum 2)]]",
        unfolded cc]
      facade_hands_rows_through [of "''DELETE FROM veiculos WHERE id = ?''"
        sampleDriver "[JNum 1]" _ "Some 1" _ 1 8, unfolded d]
      facade_hands_rows_through [of "''INSERT INTO veiculos (placa) VALUES (?)''"
        sampleDriver "[JStr ''XYZ9A87'']" "[[(''id'', JNum 7)]]" "Some 1" _ 1 7, unfolded f]
    by (simp add: firstRow_def startsWith_def)
qed

section \<open>The reset script: what every step keeps\<close>

lemma cleanTable_post:
  assumes "inTx db w r" "faultAhead fault r"
  shows "post fault db (\<lambda>x r'. x = entry w t \<and> inTx db (emptied w t) r')
           (cleanTable fault a t (clientOf a) r)"
proof (cases a)
  case Postgres
  with assms show ?thesis
    by (cases "db t"; cases "w t")
      (auto simp: post_def cleanTable_def tableExists_def issue_def clientOf_def isPostgres_def
         facadeConn_def firstRow_def visible_def store_def inTx_def faultAhead_def failedNow_def
         entry_def emptied_def split: option.splits)
next
  case Sqlite
  with assms show ?thesis
    by (cases "db t"; cases "w t")
      (auto simp: post_def cleanTable_def tableExists_def issue_def clientOf_def isPostgres_def
         facadeConn_def firstRow_def visible_def store_def inTx_def faultAhead_def failedNow_def
         entry_def emptied_def split: option.splits)
qed

lemma cleanUsers_post:
  assumes "inTx db w r" "faultAhead fault r"
  shows "post fault db (\<lambda>x r'. x = usersEntry w \<and> inTx db (purged w) r')
           (cleanUsers fault a (clientOf a) r)"
proof (cases a)
  case Postgres
  with assms show ?thesis
    by (cases "db ''usuarios''"; cases "w ''usuarios''")
      (auto simp: post_def cleanUsers_def tableExists_def issue_def clientOf_def isPostgres_def
         facadeConn_def firstRow_def visible_def store_def inTx_def faultAhead_def failedNow_def
         usersEntry_def purged_def split: option.splits)
next
  case Sqlite
  with assms show ?thesis
    by (cases "db ''usuarios''"; cases "w ''usuarios''")
      (auto simp: post_def cleanUsers_def tableExists_def issue_def clientOf_def isPostgres_def
         facadeConn_def firstRow_def visible_def store_def inTx_def faultAhead_def failedNow_def
         usersEntry_def purged_def split: option.splits)
qed

lemma post_bind:
  assumes "post fault db Q out"
    and "\<And>x r'. faultAhead fault r' \<Longrightarrow> Q x r' \<Longrightarrow> post fault db Q' (g x r')"
  shows "post fault db Q' (case out of (Inl e, r') \<Rightarrow> (Inl e, r') | (Inr x, r') \<Rightarrow> g x r')"
proof -
  obtain res r1 where out: "out = (res, r1)"
    by (cases out) auto
  show ?thesis
  proof (cases res)
    case (Inl e)
    with assms(1) out show ?thesis by (simp add: post_def)
  next
    case (Inr x)
    with assms(1) out have "faultAhead fault r1" "Q x r1"
      by (simp_all add: post_def)
    then have "post fault db Q' (g x r1)"
      by (rule assms(2))
    with Inr out show ?thesis by simp
  qed
qed

lemma cleanTables_post:
  assumes "inTx db w r" "faultAhead fault r"
  shows "post fault db
           (\<lambda>xs r'. xs = results @ expected w ts \<and> inTx db (foldl emptied w ts) r')
           (cleanTables fault a (clientOf a) ts results r)"
  using assms
proof (induction ts arbitrary: w results r)
  case Nil
  then show ?case by (simp add: post_def)
next
  case (Cons t ts)
  have "post fault db
          (\<lambda>xs r'. xs = results @ expected w (t # ts) \<and> inTx db (foldl emptied w (t # ts)) r')
          (case cleanTable fault a t (clientOf a) r of
             (Inl e, r') \<Rightarrow> (Inl e, r')
           | (Inr x, r') \<Rightarrow> cleanTables fault a (clientOf a) ts (results @ [x]) r')"
  proof (rule post_bind [OF cleanTable_post [OF Cons.prems]])
    fix x r'
    assume "faultAhead fault r'" and "x = entry w t \<and> inTx db (emptied w t) r'"
    then show "post fault db
          (\<lambda>xs r'. xs = results @ expected w (t # ts) \<and> inTx db (foldl emptied w (t # ts)) r')
          (cleanTables fault a (clientOf a) ts (results @ [x]) r')"
      using Cons.IH [of "emptied w t" r' "results @ [x]"] by simp
  qed
  then show ?case by simp
qed

lemma entry_emptied_other: "t' \<noteq> t \<Longrightarrow> entry (emptied w t) t' = entry w t'"
  by (simp add: entry_def emptied_def split: option.splits)

lemma expected_distinct: "distinct ts \<Longrightarrow> expected w ts = map (entry w) ts"
proof (induction ts arbitrary: w)
  case Nil
  then show ?case by simp
next
  case (Cons t ts)
  then have "map (entry (emptied w t)) ts = map (entry w) ts"
    by (intro map_cong refl entry_emptied_other) auto
  with Cons show ?case by simp
qed

lemma foldl_emptied: "foldl emptied w ts = emptiedAll ts w"
proof (induction ts arbitrary: w)
  case Nil
  then show ?case by (simp add: emptiedAll_def)
next
  case (Cons t ts)
  then show ?case
    by (auto simp: emptiedAll_def emptied_def fun_eq_iff split: option.splits)
qed

lemma txConn_client: "(case clientOf a of Some cl \<Rightarrow> cl | None \<Rightarrow> facadeConn a) = txConn a"
  by (simp add: clientOf_def txConn_def facadeConn_def)

lemma txConn_not_Pool: "txConn a \<noteq> Pool"
  by (simp add: txConn_def)

lemma begin_post:
  "post fault db (\<lambda>x r'. inTx db db r')
     (issue fault (txConn a) Begin \<lparr>eng = \<lparr>committed = db, working = None\<rparr>, issued = []\<rparr>)"
  using txConn_not_Pool [of a]
  by (cases fault) (auto simp: post_def issue_def inTx_def faultAhead_def failedNow_def)

lemma commit_post:
  assumes "inTx db w r" "faultAhead fault r"
  shows "post fault db (\<lambda>x r'. eng r' = \<lparr>committed = w, working = None\<rparr>)
           (issue fault (txConn a) Commit r)"
  using assms txConn_not_Pool [of a]
  by (cases fault) (auto simp: post_def issue_def inTx_def faultAhead_def failedNow_def)

lemma users_step_post:
  assumes "inTx db w r" "faultAhead fault r"
  shows "post fault db
           (\<lambda>xs r'. xs = results @ (if resetUsers then [usersEntry w] else [])
                     \<and> inTx db (if resetUsers then purged w else w) r')
           (if resetUsers then
              (case cleanUsers fault a (clientOf a) r of
                 (Inl e, r3) \<Rightarrow> (Inl e, r3)
               | (Inr result, r3) \<Rightarrow> (Inr (results @ [result]), r3))
            else (Inr results, r))"
proof (cases resetUsers)
  case True
  have "post fault db (\<lambda>xs r'. xs = results @ [usersEntry w] \<and> inTx db (purged w) r')
          (case cleanUsers fault a (clientOf a) r of
             (Inl e, r3) \<Rightarrow> (Inl e, r3)
           | (Inr result, r3) \<Rightarrow> (Inr (results @ [result]), r3))"
    by (rule post_bind [OF cleanUsers_post [OF assms]]) (simp add: post_def)
  with True show ?thesis by simp
next
  case False
  with assms show ?thesis by (simp add: post_def)
qed

lemma distinct_TABLES: "distinct TABLES_TO_CLEAN"
  by (simp add: TABLES_TO_CLEAN_def)

lemma usuarios_not_cleaned: "''usuarios'' \<notin> set TABLES_TO_CLEAN"
  by (simp add: TABLES_TO_CLEAN_def)

lemma usersEntry_emptiedAll: "usersEntry (emptiedAll TABLES_TO_CLEAN db) = usersEntry db"
  using usuarios_not_cleaned by (simp add: usersEntry_def emptiedAll_def)

lemma tryBody_post:
  "post fault db
     (\<lambda>xs r'. xs = expectedEntries resetUsers db
               \<and> eng r' = \<lparr>committed = expectedTables resetUsers db, working = None\<rparr>)
     (tryBody fault a resetUsers (clientOf a)
        \<lparr>eng = \<lparr>committed = db, working = None\<rparr>, issued = []\<rparr>)"
  unfolding tryBody_def txConn_client
proof (rule post_bind [OF begin_post])
  fix started r1
  assume r1: "faultAhead fault r1" "inTx db db r1"
  show "post fault db
     (\<lambda>xs r'. xs = expectedEntries resetUsers db
               \<and> eng r' = \<lparr>committed = expectedTables resetUsers db, working = None\<rparr>)
     (case cleanTables fault a (clientOf a) TABLES_TO_CLEAN [] r1 of
        (Inl e, r2) \<Rightarrow> (Inl e, r2)
      | (Inr results, r2) \<Rightarrow>
          (case (if resetUsers then
                   (case cleanUsers fault a (clientOf a) r2 of
                      (Inl e, r3) \<Rightarrow> (Inl e, r3)
                    | (Inr result, r3) \<Rightarrow> (Inr (results @ [result]), r3))
                 else (Inr results, r2)) of
             (Inl e, r3) \<Rightarrow> (Inl e, r3)
           | (Inr results', r3) \<Rightarrow>
               (case issue fault (txConn a) Commit r3 of
                  (Inl e, r4) \<Rightarrow> (Inl e, r4)
                | (Inr done, r4) \<Rightarrow> (Inr results', r4))))"
  proof (rule post_bind [OF cleanTables_post [OF r1(2) r1(1)]])
    fix results r2
    assume r2: "faultAhead fault r2"
      "results = [] @ expected db TABLES_TO_CLEAN \<and> inTx db (foldl emptied db TABLES_TO_CLEAN) r2"
    then have in2: "inTx db (emptiedAll TABLES_TO_CLEAN db) r2"
      and res: "results = map (entry db) TABLES_TO_CLEAN"
      by (simp_all add: foldl_emptied expected_distinct distinct_TABLES)
    show "post fault db
       (\<lambda>xs r'. xs = expectedEntries resetUsers db
                 \<and> eng r' = \<lparr>committed = expectedTables resetUsers db, working = None\<rparr>)
       (case (if resetUsers then
                (case cleanUsers fault a (clientOf a) r2 of
                   (Inl e, r3) \<Rightarrow> (Inl e, r3)
                 | (Inr result, r3) \<Rightarrow> (Inr (results @ [result]), r3))
              else (Inr results, r2)) of
          (Inl e, r3) \<Rightarrow> (Inl e, r3)
        | (Inr results', r3) \<Rightarrow>
            (case issue fault (txConn a) Commit r3 of
               (Inl e, r4) \<Rightarrow> (Inl e, r4)
             | (Inr done, r4) \<Rightarrow> (Inr results', r4)))"
    proof (rule post_bind [OF users_step_post [OF in2 r2(1)]])
      fix results' r3
      assume r3: "faultAhead fault r3"
        "results' = results @ (if resetUsers then [usersEntry (emptiedAll TABLES_TO_CLEAN db)] else [])
          \<and> inTx db (if resetUsers then purged (emptiedAll TABLES_TO_CLEAN db)
                      else emptiedAll TABLES_TO_CLEAN db) r3"
      then have in3: "inTx db (expectedTables resetUsers db) r3"
        and res': "results' = expectedEntries resetUsers db"
        using res by (simp_all add: expectedTables_def expectedEntries_def usersEntry_emptiedAll)
      show "post fault db
         (\<lambda>xs r'. xs = expectedEntries resetUsers db
                   \<and> eng r' = \<lparr>committed = expectedTables resetUsers db, working = None\<rparr>)
         (case issue fault (txConn a) Commit r3 of
            (Inl e, r4) \<Rightarrow> (Inl e, r4)
          | (Inr done, r4) \<Rightarrow> (Inr results', r4))"
        by (rule post_bind [OF commit_post [OF in3 r3(1)]]) (simp add: post_def res')
    qed
  qed
qed

lemma rollback_after_failure:
  assumes "failedNow fault db r" and "issue fault (txConn a) Rollback r = (x, r')"
  shows "eng r' = \<lparr>committed = db, working = None\<rparr>
         \<and> issued r' = issued r @ [(txConn a, Rollback)]"
proof -
  from assms(1) have ne: "issued r \<noteq> []" and fk: "fault = Some (length (issued r) - 1)"
    and c: "committed (eng r) = db"
    by (auto simp: failedNow_def)
  from ne have "length (issued r) - 1 \<noteq> length (issued r)"
    by (cases "issued r") auto
  with fk have nf: "fault \<noteq> Some (length (issued r))"
    by simp
  show ?thesis
  proof (cases "working (eng r)")
    case None
    with nf c assms(2) txConn_not_Pool [of a] show ?thesis
      by (cases "eng r") (auto simp: issue_def)
  next
    case (Some w)
    with nf c assms(2) txConn_not_Pool [of a] show ?thesis
      by (cases "eng r") (auto simp: issue_def)
  qed
qed

lemma reset_cases:
  "(outcome (resetOperationalData fault a resetUsers db) = Resolved None
      \<and> printed (resetOperationalData fault a resetUsers db)
          = Some \<lparr>entries = expectedEntries resetUsers db,
                  totalDeleted = sumDeleted (expectedEntries resetUsers db)\<rparr>
      \<and> eng (final (resetOperationalData fault a resetUsers db))
          = \<lparr>committed = expectedTables resetUsers db, working = None\<rparr>
      \<and> faultAhead fault (final (resetOperationalData fault a resetUsers db)))
   \<or> (outcome (resetOperationalData fault a resetUsers db)
          = Exit1 (DriverError ''injected failure'')
      \<and> printed (resetOperationalData fault a resetUsers db) = None
      \<and> eng (final (resetOperationalData fault a resetUsers db))
          = \<lparr>committed = db, working = None\<rparr>
      \<and> (\<exists>tr. issued (final (resetOperationalData fault a resetUsers db))
                  = tr @ [(txConn a, Rollback)]
             \<and> tr \<noteq> [] \<and> fault = Some (length tr - 1)))"
proof -
  let ?r0 = "\<lparr>eng = \<lparr>committed = db, working = None\<rparr>, issued = []\<rparr>"
  obtain res r where tb: "tryBody fault a resetUsers (clientOf a) ?r0 = (res, r)"
    by (cases "tryBody fault a resetUsers (clientOf a) ?r0") auto
  have p: "post fault db
     (\<lambda>xs r'. xs = expectedEntries resetUsers db
               \<and> eng r' = \<lparr>committed = expectedTables resetUsers db, working = None\<rparr>)
     (res, r)"
    using tryBody_post [of fault db resetUsers a] tb by simp
  show ?thesis
  proof (cases res)
    case (Inr xs)
    with p tb show ?thesis
      by (simp add: post_def resetOperationalData_def clientOf_def [symmetric])
  next
    case (Inl e)
    with p have e: "e = DriverError ''injected failure''" and f: "failedNow fault db r"
      by (simp_all add: post_def)
    obtain x r' where rb: "issue fault (txConn a) Rollback r = (x, r')"
      by (cases "issue fault (txConn a) Rollback r") auto
    from f have "issued r \<noteq> []" "fault = Some (length (issued r) - 1)"
      by (simp_all add: failedNow_def)
    moreover have "resetOperationalData fault a resetUsers db
        = \<lparr>outcome = Exit1 e, printed = None, final = r'\<rparr>"
      using Inl tb rb
      by (simp add: resetOperationalData_def clientOf_def [symmetric] txConn_client)
    ultimately show ?thesis
      using e rollback_after_failure [OF f rb] by simp
  qed
qed

section \<open>The reset script: the statements and their connections\<close>

lemma grows_refl: "grows P r r"
  by (simp add: grows_def)

lemma grows_trans: "grows P r r' \<Longrightarrow> grows P r' r'' \<Longrightarrow> grows P r r''"
  by (auto simp: grows_def)

lemma grows_issue: "issue fault c s r = (x, r') \<Longrightarrow> P (c, s) \<Longrightarrow> grows P r r'"
  by (auto simp: grows_def issue_def split: if_splits prod.splits)

lemma tableExists_grows: "tableExists fault a t r = (x, r') \<Longrightarrow> grows (routed a) r r'"
  by (auto simp: tableExists_def routed_def isExistenceCheck_def
      split: if_splits prod.splits sum.splits elim!: grows_issue)

lemma cleanTable_grows:
  "cleanTable fault a t (clientOf a) r = (x, r') \<Longrightarrow> grows (routed a) r r'"
  by (auto simp: cleanTable_def routed_def isExistenceCheck_def clientOf_def txConn_def
        facadeConn_def
      split: if_splits prod.splits sum.splits
      dest!: tableExists_grows grows_issue [where P = "routed a"]
      intro: grows_trans)

lemma cleanUsers_grows:
  "cleanUsers fault a (clientOf a) r = (x, r') \<Longrightarrow> grows (routed a) r r'"
  by (auto simp: cleanUsers_def routed_def isExistenceCheck_def clientOf_def txConn_def
        facadeConn_def
      split: if_splits prod.splits sum.splits
      dest!: tableExists_grows grows_issue [where P = "routed a"]
      intro: grows_trans)

lemma cleanTables_grows:
  "cleanTables fault a (clientOf a) ts results r = (x, r') \<Longrightarrow> grows (routed a) r r'"
proof (induction ts arbitrary: results r)
  case Nil
  then show ?case by (simp add: grows_refl)
next
  case (Cons t ts)
  then show ?case
    by (auto split: prod.splits sum.splits dest!: cleanTable_grows intro: grows_trans)
qed

lemma routed_tx: "\<not> isExistenceCheck s \<Longrightarrow> routed a (txConn a, s)"
  by (simp add: routed_def)

lemma grows_tx:
  "issue fault (txConn a) s r = (x, r') \<Longrightarrow> \<not> isExistenceCheck s \<Longrightarrow> grows (routed a) r r'"
  by (erule grows_issue) (simp add: routed_tx)

lemma grows_begin: "issue fault (txConn a) Begin r = (x, r') \<Longrightarrow> grows (routed a) r r'"
  by (erule grows_tx) (simp add: isExistenceCheck_def)

lemma grows_commit: "issue fault (txConn a) Commit r = (x, r') \<Longrightarrow> grows (routed a) r r'"
  by (erule grows_tx) (simp add: isExistenceCheck_def)

lemma grows_rollback: "issue fault (txConn a) Rollback r = (x, r') \<Longrightarrow> grows (routed a) r r'"
  by (erule grows_tx) (simp add: isExistenceCheck_def)

lemma tryBody_grows:
  assumes "tryBody fault a resetUsers (clientOf a) r = (x, r')"
  shows "grows (routed a) r r'"
  using assms unfolding tryBody_def txConn_client
  by (cases resetUsers)
    (auto split: prod.splits sum.splits
      dest!: grows_begin grows_commit cleanTables_grows cleanUsers_grows
      intro: grows_trans)

lemma tryBody_starts_with_begin:
  assumes "tryBody fault a resetUsers (clientOf a) r = (x, r')"
  shows "\<exists>ys. issued r' = issued r @ (txConn a, Begin) # ys"
proof -
  obtain y r1 where i: "issue fault (txConn a) Begin r = (y, r1)"
    by (cases "issue fault (txConn a) Begin r") auto
  then have r1: "issued r1 = issued r @ [(txConn a, Begin)]"
    by (auto simp: issue_def split: if_splits prod.splits)
  have "grows (routed a) r1 r'"
    using assms i unfolding tryBody_def txConn_client
    by (cases resetUsers)
      (auto split: prod.splits sum.splits
        dest!: grows_commit cleanTables_grows cleanUsers_grows
        intro: grows_trans grows_refl)
  with r1 show ?thesis
    by (auto simp: grows_def)
qed

lemma reset_trace:
  "\<exists>ys. issued (final (resetOperationalData fault a resetUsers db)) = (txConn a, Begin) # ys
        \<and> list_all (routed a) ((txConn a, Begin) # ys)"
proof -
  let ?r0 = "\<lparr>eng = \<lparr>committed = db, working = None\<rparr>, issued = []\<rparr>"
  obtain res r where tb: "tryBody fault a resetUsers (clientOf a) ?r0 = (res, r)"
    by (cases "tryBody fault a resetUsers (clientOf a) ?r0") auto
  obtain x r' where rb: "issue fault (txConn a) Rollback r = (x, r')"
    by (cases "issue fault (txConn a) Rollback r") auto
  have g: "grows (routed a) ?r0 r"
    using tb by (rule tryBody_grows)
  have g': "grows (routed a) r r'"
    using rb by (rule grows_rollback)
  obtain ys where ys: "issued r = (txConn a, Begin) # ys"
    using tryBody_starts_with_begin [OF tb] by auto
  have fin: "final (resetOperationalData fault a resetUsers db) = (case res of Inr xs \<Rightarrow> r | Inl e \<Rightarrow> r')"
    using tb rb
    by (simp add: resetOperationalData_def clientOf_def [symmetric] txConn_client split: sum.splits)
  show ?thesis
  proof (cases res)
    case (Inr xs)
    with fin g ys show ?thesis by (auto simp: grows_def)
  next
    case (Inl e)
    with fin grows_trans [OF g g'] g' ys show ?thesis by (auto simp: grows_def)
  qed
qed

section \<open>The reset script: the report\<close>

lemma sumDeleted_foldl:
  "foldl (\<lambda>total result. if skipped result then total else total + deleted result) n xs
     = n + sum_list (map deleted (filter (\<lambda>x. \<not> skipped x) xs))"
  by (induction xs arbitrary: n) auto

lemma sumDeleted_sum:
  "sumDeleted xs = sum_list (map deleted (filter (\<lambda>x. \<not> skipped x) xs))"
  by (simp add: sumDeleted_def sumDeleted_foldl)

lemma table_entry [simp]: "table (entry db t) = t"
  by (simp add: entry_def split: option.splits)

lemma table_usersEntry [simp]: "table (usersEntry db) = ''usuarios''"
  by (simp add: usersEntry_def split: option.splits)

section \<open>The reset script: the claims\<close>

text \<open>
  C1. If a statement of a resetOperationalData run fails, the run fails: whatever
  statement the failure is injected at, once that statement has been sent the script
  ends on the error. A run that does not complete has sent ROLLBACK last, on the
  connection its first statement BEGIN went out on, before ending the process; the
  engine then has no open transaction and its tables are the ones from before the
  run, so no table is left partly or fully deleted. This holds on both backends, and
  for a failure at any statement (schema checks, counts, deletes, the purge, BEGIN and
  COMMIT included).
\<close>

theorem reset_failure_rolls_back:
  "(fault = Some k \<and> k < length (issued (final (resetOperationalData fault a resetUsers db)))
      \<longrightarrow> outcome (resetOperationalData fault a resetUsers db)
            = Exit1 (DriverError ''injected failure''))
   \<and> (outcome (resetOperationalData fault a resetUsers db) \<noteq> Resolved None
      \<longrightarrow> eng (final (resetOperationalData fault a resetUsers db))
            = \<lparr>committed = db, working = None\<rparr>
          \<and> hd (issued (final (resetOperationalData fault a resetUsers db))) = (txConn a, Begin)
          \<and> last (issued (final (resetOperationalData fault a resetUsers db)))
            = (txConn a, Rollback))"
proof -
  let ?res = "resetOperationalData fault a resetUsers db"
  obtain ys where ys: "issued (final ?res) = (txConn a, Begin) # ys"
    using reset_trace [of fault a resetUsers db] by auto
  then have h: "hd (issued (final ?res)) = (txConn a, Begin)"
    by simp
  from reset_cases [of fault a resetUsers db] show ?thesis
  proof (elim disjE conjE exE)
    assume "outcome ?res = Resolved None" and "faultAhead fault (final ?res)"
    then show ?thesis
      by (auto simp: faultAhead_def)
  next
    fix tr
    assume "outcome ?res = Exit1 (DriverError ''injected failure'')"
      and "eng (final ?res) = \<lparr>committed = db, working = None\<rparr>"
      and "issued (final ?res) = tr @ [(txConn a, Rollback)]"
    with h show ?thesis
      by auto
  qed
qed

theorem reset_failure_rolls_back_witness:
  "outcome (resetOperationalData (Some 12) Postgres True sampleTables)
     = Exit1 (DriverError ''injected failure'')
   \<and> eng (final (resetOperationalData (Some 12) Postgres True sampleTables))
     = \<lparr>committed = sampleTables, working = None\<rparr>
   \<and> hd (issued (final (resetOperationalData (Some 12) Postgres True sampleTables)))
     = (Client, Begin)
   \<and> last (issued (final (resetOperationalData (Some 12) Postgres True sampleTables)))
     = (Client, Rollback)
   \<and> issued (final (resetOperationalData (Some 12) Postgres True sampleTables)) ! 5
     = (Client, DeleteAll ''manutencoes'')
   \<and> issued (final (resetOperationalData (Some 12) Postgres True sampleTables)) ! 12
     = (Client, DeleteAll ''veiculos'')
   \<and> committed (eng (final (resetOperationalData (Some 12) Postgres True sampleTables)))
       ''manutencoes''
     = Some [[(''id'', JNum 1)], [(''id'', JNum 2)], [(''id'', JNum 3)]]"
proof -
  have t: "issued (final (resetOperationalData (Some 12) Postgres True sampleTables))
     = [(Client, Begin),
        (Pool, ExistsInSchema ''km_historico''),
        (Pool, ExistsInSchema ''abastecimentos''),
        (Pool, ExistsInSchema ''manutencoes''),
        (Client, CountRows ''manutencoes''),
        (Client, DeleteAll ''manutencoes''),
        (Pool, ExistsInSchema ''ocr_usage''),
        (Pool, ExistsInSchema ''veiculo_compartilhamentos''),
        (Pool, ExistsInSchema ''proprietarios_historico''),
        (Pool, ExistsInSchema ''proprietarios''),
        (Pool, ExistsInSchema ''veiculos''),
        (Client, CountRows ''veiculos''),
        (Client, DeleteAll ''veiculos''),
        (Client, Rollback)]"
    by code_simp
  have m: "sampleTables ''manutencoes''
      = Some [[(''id'', JNum 1)], [(''id'', JNum 2)], [(''id'', JNum 3)]]"
    by (simp add: sampleTables_def)
  have "(12::nat) < length (issued (final (resetOperationalData (Some 12) Postgres True sampleTables)))"
    by (simp add: t)
  then show ?thesis
    using reset_failure_rolls_back [of "Some 12" 12 Postgres True sampleTables] m
    by (simp add: txConn_def isPostgres_def t)
qed

text \<open>
  C2, as the claim states it, fails: on the networked backend the table-existence
  checks are sent through \<^verbatim>\<open>queryOne\<close>, that is through the pool, and not on the
  client the transaction runs on. The trace of a run on the fixture shows it.
\<close>

theorem checks_run_on_pool_counterexample:
  "\<not> list_all (\<lambda>cs. fst cs = Client)
       (issued (final (resetOperationalData None Postgres False sampleTables)))
   \<and> issued (final (resetOperationalData None Postgres False sampleTables))
     = [(Client, Begin),
        (Pool, ExistsInSchema ''km_historico''),
        (Pool, ExistsInSchema ''abastecimentos''),
        (Pool, ExistsInSchema ''manutencoes''),
        (Client, CountRows ''manutencoes''),
        (Client, DeleteAll ''manutencoes''),
        (Pool, ExistsInSchema ''ocr_usage''),
        (Pool, ExistsInSchema ''veiculo_compartilhamentos''),
        (Pool, ExistsInSchema ''proprietarios_historico''),
        (Pool, ExistsInSchema ''proprietarios''),
        (Pool, ExistsInSchema ''veiculos''),
        (Client, CountRows ''veiculos''),
        (Client, DeleteAll ''veiculos''),
        (Client, Commit)]"
  by code_simp

text \<open>
  C2, amended. On the networked backend every statement of the run other than the
  table-existence checks (BEGIN, the counts, the deletes, the purge, COMMIT or
  ROLLBACK) is sent on the one client checked out at the start, and every
  table-existence check is sent through the pool. On the embedded backend every
  statement is sent on the shared connection.
\<close>

theorem existence_checks_use_pool:
  "list_all (\<lambda>cs. fst cs = (if isExistenceCheck (snd cs) then Pool else Client))
     (issued (final (resetOperationalData fault Postgres resetUsers db)))
   \<and> list_all (\<lambda>cs. fst cs = Shared)
     (issued (final (resetOperationalData fault Sqlite resetUsers db)))"
proof -
  have p: "routed Postgres = (\<lambda>cs. fst cs = (if isExistenceCheck (snd cs) then Pool else Client))"
    by (simp add: routed_def facadeConn_def txConn_def isPostgres_def fun_eq_iff)
  have q: "routed Sqlite = (\<lambda>cs. fst cs = Shared)"
    by (simp add: routed_def facadeConn_def txConn_def isPostgres_def fun_eq_iff)
  have "list_all (routed a) (issued (final (resetOperationalData fault a resetUsers db)))" for a
    using reset_trace [of fault a resetUsers db] by auto
  from this [of Postgres, unfolded p] this [of Sqlite, unfolded q] show ?thesis
    by (rule conjI)
qed

theorem existence_checks_use_pool_witness:
  "list_all (\<lambda>cs. fst cs = (if isExistenceCheck (snd cs) then Pool else Client))
     (issued (final (resetOperationalData (Some 5) Postgres True sampleTables)))
   \<and> issued (final (resetOperationalData (Some 5) Postgres True sampleTables))
     = [(Client, Begin),
        (Pool, ExistsInSchema ''km_historico''),
        (Pool, ExistsInSchema ''abastecimentos''),
        (Pool, ExistsInSchema ''manutencoes''),
        (Client, CountRows ''manutencoes''),
        (Client, DeleteAll ''manutencoes''),
        (Client, Rollback)]"
proof -
  have "issued (final (resetOperationalData (Some 5) Postgres True sampleTables))
     = [(Client, Begin),
        (Pool, ExistsInSchema ''km_historico''),
        (Pool, ExistsInSchema ''abastecimentos''),
        (Pool, ExistsInSchema ''manutencoes''),
        (Client, CountRows ''manutencoes''),
        (Client, DeleteAll ''manutencoes''),
        (Client, Rollback)]"
    by code_simp
  then show ?thesis
    using existence_checks_use_pool [of "Some 5" True sampleTables] by simp
qed

text \<open>
  C3. When no statement fails, a run completes whatever tables are absent. Its entries
  for the table list are, in the order of the list, \<open>{table, deleted: 0, skipped: true}\<close>
  for a table that is absent and \<open>{table, deleted: n, skipped: false}\<close> with \<open>n\<close> the
  rows it held for a table that is present; afterwards every present table of the list
  is empty and every absent one still absent. The script keeps the entries in its
  \<^verbatim>\<open>results\<close> array and prints them.
\<close>

theorem absent_tables_are_skipped:
  "outcome (resetOperationalData None a resetUsers db) = Resolved None
   \<and> map_option entries (printed (resetOperationalData None a resetUsers db))
     = Some (map (entry db) TABLES_TO_CLEAN @ (if resetUsers then [usersEntry db] else []))
   \<and> (\<forall>t\<in>set TABLES_TO_CLEAN.
        entry db t = (if db t = None then \<lparr>table = t, deleted = 0, skipped = True\<rparr>
                      else \<lparr>table = t, deleted = length (the (db t)), skipped = False\<rparr>)
        \<and> committed (eng (final (resetOperationalData None a resetUsers db))) t
          = (if db t = None then None else Some []))"
proof -
  have e: "entry db t = (if db t = None then \<lparr>table = t, deleted = 0, skipped = True\<rparr>
                      else \<lparr>table = t, deleted = length (the (db t)), skipped = False\<rparr>)" for t
    by (auto simp: entry_def)
  have t: "t \<in> set TABLES_TO_CLEAN \<Longrightarrow>
      expectedTables resetUsers db t = (if db t = None then None else Some [])" for t
    using usuarios_not_cleaned
    by (auto simp: expectedTables_def emptiedAll_def purged_def split: option.splits)
  from reset_cases [of None a resetUsers db] e t show ?thesis
    by (auto simp: expectedEntries_def)
qed

theorem absent_tables_are_skipped_witness:
  "map_option entries (printed (resetOperationalData None Sqlite False sampleTables))
     = Some [\<lparr>table = ''km_historico'', deleted = 0, skipped = True\<rparr>,
          \<lparr>table = ''abastecimentos'', deleted = 0, skipped = True\<rparr>,
          \<lparr>table = ''manutencoes'', deleted = 3, skipped = False\<rparr>,
          \<lparr>table = ''ocr_usage'', deleted = 0, skipped = True\<rparr>,
          \<lparr>table = ''veiculo_compartilhamentos'', deleted = 0, skipped = True\<rparr>,
          \<lparr>table = ''proprietarios_historico'', deleted = 0, skipped = True\<rparr>,
          \<lparr>table = ''proprietarios'', deleted = 0, skipped = True\<rparr>,
          \<lparr>table = ''veiculos'', deleted = 2, skipped = False\<rparr>]
   \<and> committed (eng (final (resetOperationalData None Sqlite False sampleTables))) ''veiculos''
     = Some []
   \<and> committed (eng (final (resetOperationalData None Sqlite False sampleTables))) ''ocr_usage''
     = None"
proof -
  have "map (entry sampleTables) TABLES_TO_CLEAN
     = [\<lparr>table = ''km_historico'', deleted = 0, skipped = True\<rparr>,
          \<lparr>table = ''abastecimentos'', deleted = 0, skipped = True\<rparr>,
          \<lparr>table = ''manutencoes'', deleted = 3, skipped = False\<rparr>,
          \<lparr>table = ''ocr_usage'', deleted = 0, skipped = True\<rparr>,
          \<lparr>table = ''veiculo_compartilhamentos'', deleted = 0, skipped = True\<rparr>,
          \<lparr>table = ''proprietarios_historico'', deleted = 0, skipped = True\<rparr>,
          \<lparr>table = ''proprietarios'', deleted = 0, skipped = True\<rparr>,
          \<lparr>table = ''veiculos'', deleted = 2, skipped = False\<rparr>]"
    by (simp add: TABLES_TO_CLEAN_def entry_def sampleTables_def)
  moreover have "''veiculos'' \<in> set TABLES_TO_CLEAN" "''ocr_usage'' \<in> set TABLES_TO_CLEAN"
    by (simp_all add: TABLES_TO_CLEAN_def)
  moreover have "sampleTables ''veiculos'' \<noteq> None" "sampleTables ''ocr_usage'' = None"
    by (simp_all add: sampleTables_def)
  ultimately show ?thesis
    using absent_tables_are_skipped [of Sqlite False sampleTables] by simp
qed

text \<open>
  The purge on accounts whose role and email are text. With the purge switched off the
  rows of the user table are the same after the run as before, whether the run
  completes or fails, on both backends. With the purge switched on, a run that
  completes leaves in the user table exactly the rows the purge's WHERE clause does not
  select, in their order. Every row matching the administrator predicate is kept, and
  among rows whose role and email are text the kept rows are exactly the
  administrators.
\<close>

lemma purge_exact_on_text_accounts:
  "committed (eng (final (resetOperationalData fault a False db))) ''usuarios'' = db ''usuarios''
   \<and> (outcome (resetOperationalData fault a True db) = Resolved None \<longrightarrow>
        committed (eng (final (resetOperationalData fault a True db))) ''usuarios''
          = map_option (filter keptByPurge) (db ''usuarios''))
   \<and> (isAdministrator r \<longrightarrow> keptByPurge r)
   \<and> (map_of r ''role'' = Some (JStr ro) \<and> map_of r ''email'' = Some (JStr em) \<longrightarrow>
        keptByPurge r = isAdministrator r)"
proof -
  have a: "expectedTables False db ''usuarios'' = db ''usuarios''"
    using usuarios_not_cleaned by (simp add: expectedTables_def emptiedAll_def)
  have b: "expectedTables True db ''usuarios'' = map_option (filter keptByPurge) (db ''usuarios'')"
    using usuarios_not_cleaned
    by (simp add: expectedTables_def emptiedAll_def purged_def split: option.splits)
  have c: "isAdministrator r \<longrightarrow> keptByPurge r"
    by (auto simp: isAdministrator_def keptByPurge_def deletedByPurge_def sqlNotEqual_def)
  have d: "map_of r ''role'' = Some (JStr ro) \<and> map_of r ''email'' = Some (JStr em) \<longrightarrow>
        keptByPurge r = isAdministrator r"
    by (auto simp: isAdministrator_def keptByPurge_def deletedByPurge_def sqlNotEqual_def)
  from reset_cases [of fault a False db] reset_cases [of fault a True db] a b c d
  show ?thesis
    by auto
qed

text \<open>
  C9 holds with the purge switched off, and with it switched on for accounts whose role
  and email are text. It fails on an account whose role or email is NULL: the purge
  deletes \<^verbatim>\<open>WHERE role != 'admin' AND email != 'admin@troia.com'\<close>, and a comparison
  with NULL selects nothing. On a user table holding an administrator, an account
  without role, an account without email and a plain account, a completed run with the
  purge switched on deletes only the plain account, on both backends: the accounts
  without role and without email stay, although neither matches the administrator
  predicate and the claim has them deleted.
\<close>

theorem purge_keeps_accounts_with_null:
  "outcome (resetOperationalData None Postgres True accountsWithoutRole) = Resolved None
   \<and> committed (eng (final (resetOperationalData None Postgres True accountsWithoutRole)))
       ''usuarios''
     = Some [[(''role'', JStr ''admin''), (''email'', JStr ''root@troia.com'')],
             [(''role'', JNull), (''email'', JStr ''ana@troia.com'')],
             [(''role'', JStr ''cliente''), (''email'', JNull)]]
   \<and> outcome (resetOperationalData None Sqlite True accountsWithoutRole) = Resolved None
   \<and> committed (eng (final (resetOperationalData None Sqlite True accountsWithoutRole)))
       ''usuarios''
     = Some [[(''role'', JStr ''admin''), (''email'', JStr ''root@troia.com'')],
             [(''role'', JNull), (''email'', JStr ''ana@troia.com'')],
             [(''role'', JStr ''cliente''), (''email'', JNull)]]
   \<and> map_option entries (printed (resetOperationalData None Postgres True accountsWithoutRole))
     = Some (map (\<lambda>t. \<lparr>table = t, deleted = 0, skipped = True\<rparr>) TABLES_TO_CLEAN
             @ [\<lparr>table = ''usuarios'', deleted = 1, skipped = False\<rparr>])
   \<and> \<not> isAdministrator [(''role'', JNull), (''email'', JStr ''ana@troia.com'')]
   \<and> \<not> isAdministrator [(''role'', JStr ''cliente''), (''email'', JNull)]"
  by code_simp


section \<open>The reset service: what it returns\<close>

lemma resetTable_post:
  assumes "inTx db w r" "faultAhead fault r"
  shows "post fault db (\<lambda>x r'. x = entry w t \<and> inTx db (emptied w t) r')
           (resetTable fault a t r)"
proof (cases a)
  case Postgres
  with assms show ?thesis
    by (cases "db t"; cases "w t")
      (auto simp: post_def resetTable_def checkExistence_def issue_def txConn_def isPostgres_def
         visible_def store_def inTx_def faultAhead_def failedNow_def
         entry_def emptied_def split: option.splits)
next
  case Sqlite
  with assms show ?thesis
    by (cases "db t"; cases "w t")
      (auto simp: post_def resetTable_def checkExistence_def issue_def txConn_def isPostgres_def
         visible_def store_def inTx_def faultAhead_def failedNow_def
         entry_def emptied_def split: option.splits)
qed

lemma resetTables_post:
  assumes "inTx db w r" "faultAhead fault r"
  shows "post fault db
           (\<lambda>xs r'. xs = report @ expected w ts \<and> inTx db (foldl emptied w ts) r')
           (resetTables fault a ts report r)"
  using assms
proof (induction ts arbitrary: w report r)
  case Nil
  then show ?case by (simp add: post_def)
next
  case (Cons t ts)
  have "post fault db
          (\<lambda>xs r'. xs = report @ expected w (t # ts) \<and> inTx db (foldl emptied w (t # ts)) r')
          (case resetTable fault a t r of
             (Inl e, r') \<Rightarrow> (Inl e, r')
           | (Inr x, r') \<Rightarrow> resetTables fault a ts (report @ [x]) r')"
  proof (rule post_bind [OF resetTable_post [OF Cons.prems]])
    fix x r'
    assume "faultAhead fault r'" and "x = entry w t \<and> inTx db (emptied w t) r'"
    then show "post fault db
          (\<lambda>xs r'. xs = report @ expected w (t # ts) \<and> inTx db (foldl emptied w (t # ts)) r')
          (resetTables fault a ts (report @ [x]) r')"
      using Cons.IH [of "emptied w t" r' "report @ [x]"] by simp
  qed
  then show ?case by simp
qed

lemma purgeUsers_post:
  assumes "inTx db w r" "faultAhead fault r" "w ''usuarios'' = Some us"
  shows "post fault db
           (\<lambda>x r'. x = \<lparr>table = ''usuarios'', deleted = length (filter deletedByPurge us),
                          skipped = False\<rparr>
                    \<and> inTx db (w(''usuarios'' \<mapsto> filter keptByPurge us)) r')
           (purgeUsers fault a r)"
  using assms
  by (cases a)
    (auto simp: post_def purgeUsers_def issue_def txConn_def isPostgres_def
       visible_def store_def inTx_def faultAhead_def failedNow_def split: option.splits)


lemma users_present_after_tables:
  "db ''usuarios'' \<noteq> None \<Longrightarrow> foldl emptied db ts ''usuarios'' \<noteq> None"
  by (simp add: foldl_emptied emptiedAll_def)

lemma purge_step_post:
  assumes "inTx db w r" "faultAhead fault r" "resetUsers \<longrightarrow> w ''usuarios'' \<noteq> None"
  shows "post fault db
           (\<lambda>xs r'. xs = report
                        @ (if resetUsers
                           then [\<lparr>table = ''usuarios'',
                                  deleted = length (filter deletedByPurge (the (w ''usuarios''))),
                                  skipped = False\<rparr>]
                           else [])
                     \<and> (\<exists>w'. inTx db w' r'))
           (if resetUsers then
              (case purgeUsers fault a r of
                 (Inl e, r3) \<Rightarrow> (Inl e, r3)
               | (Inr recorded, r3) \<Rightarrow> (Inr (report @ [recorded]), r3))
            else (Inr report, r))"
proof (cases resetUsers)
  case True
  with assms(3) obtain us where us: "w ''usuarios'' = Some us"
    by auto
  have "post fault db
          (\<lambda>xs r'. xs = report
                        @ [\<lparr>table = ''usuarios'', deleted = length (filter deletedByPurge us),
                            skipped = False\<rparr>]
                    \<and> (\<exists>w'. inTx db w' r'))
          (case purgeUsers fault a r of
             (Inl e, r3) \<Rightarrow> (Inl e, r3)
           | (Inr recorded, r3) \<Rightarrow> (Inr (report @ [recorded]), r3))"
    by (rule post_bind [OF purgeUsers_post [OF assms(1) assms(2) us]]) (auto simp: post_def)
  with True us show ?thesis by simp
next
  case False
  with assms show ?thesis by (auto simp: post_def)
qed

lemma orchestrate_post:
  assumes u: "resetUsers \<longrightarrow> db ''usuarios'' \<noteq> None"
  shows "post fault db
     (\<lambda>rep r'. entries rep
                  = expected db ts
                    @ (if resetUsers
                       then [\<lparr>table = ''usuarios'',
                              deleted = length (filter deletedByPurge
                                                  (the (foldl emptied db ts ''usuarios''))),
                              skipped = False\<rparr>]
                       else [])
                \<and> totalDeleted rep
                  = sum_list (map deleted (filter (\<lambda>x. \<not> skipped x) (entries rep))))
     (orchestrate fault a ts resetUsers \<lparr>eng = \<lparr>committed = db, working = None\<rparr>, issued = []\<rparr>)"
  unfolding orchestrate_def
proof (rule post_bind [OF begin_post])
  fix started r1
  assume r1: "faultAhead fault r1" "inTx db db r1"
  show "post fault db
     (\<lambda>rep r'. entries rep
                  = expected db ts
                    @ (if resetUsers
                       then [\<lparr>table = ''usuarios'',
                              deleted = length (filter deletedByPurge
                                                  (the (foldl emptied db ts ''usuarios''))),
                              skipped = False\<rparr>]
                       else [])
                \<and> totalDeleted rep
                  = sum_list (map deleted (filter (\<lambda>x. \<not> skipped x) (entries rep))))
     (case resetTables fault a ts [] r1 of
        (Inl e, r2) \<Rightarrow> (Inl e, r2)
      | (Inr report, r2) \<Rightarrow>
          (case (if resetUsers then
                   (case purgeUsers fault a r2 of
                      (Inl e, r3) \<Rightarrow> (Inl e, r3)
                    | (Inr recorded, r3) \<Rightarrow> (Inr (report @ [recorded]), r3))
                 else (Inr report, r2)) of
             (Inl e, r3) \<Rightarrow> (Inl e, r3)
           | (Inr report', r3) \<Rightarrow>
               (case issue fault (txConn a) Commit r3 of
                  (Inl e, r4) \<Rightarrow> (Inl e, r4)
                | (Inr done, r4) \<Rightarrow>
                    (Inr \<lparr>entries = report',
                          totalDeleted
                            = sum_list (map deleted (filter (\<lambda>x. \<not> skipped x) report'))\<rparr>,
                     r4))))"
  proof (rule post_bind [OF resetTables_post [OF r1(2) r1(1)]])
    fix report r2
    assume r2: "faultAhead fault r2"
      "report = [] @ expected db ts \<and> inTx db (foldl emptied db ts) r2"
    then have in2: "inTx db (foldl emptied db ts) r2" and rep: "report = expected db ts"
      by simp_all
    from u have u2: "resetUsers \<longrightarrow> foldl emptied db ts ''usuarios'' \<noteq> None"
      using users_present_after_tables [of db ts] by blast
    show "post fault db
       (\<lambda>rep r'. entries rep
                    = expected db ts
                      @ (if resetUsers
                         then [\<lparr>table = ''usuarios'',
                                deleted = length (filter deletedByPurge
                                                    (the (foldl emptied db ts ''usuarios''))),
                                skipped = False\<rparr>]
                         else [])
                  \<and> totalDeleted rep
                    = sum_list (map deleted (filter (\<lambda>x. \<not> skipped x) (entries rep))))
       (case (if resetUsers then
                (case purgeUsers fault a r2 of
                   (Inl e, r3) \<Rightarrow> (Inl e, r3)
                 | (Inr recorded, r3) \<Rightarrow> (Inr (report @ [recorded]), r3))
              else (Inr report, r2)) of
          (Inl e, r3) \<Rightarrow> (Inl e, r3)
        | (Inr report', r3) \<Rightarrow>
            (case issue fault (txConn a) Commit r3 of
               (Inl e, r4) \<Rightarrow> (Inl e, r4)
             | (Inr done, r4) \<Rightarrow>
                 (Inr \<lparr>entries = report',
                       totalDeleted
                         = sum_list (map deleted (filter (\<lambda>x. \<not> skipped x) report'))\<rparr>,
                  r4)))"
    proof (rule post_bind [OF purge_step_post [OF in2 r2(1) u2]])
      fix report' r3
      assume r3: "faultAhead fault r3"
        "report' = report
                     @ (if resetUsers
                        then [\<lparr>table = ''usuarios'',
                               deleted = length (filter deletedByPurge
                                                   (the (foldl emptied db ts ''usuarios''))),
                               skipped = False\<rparr>]
                        else [])
          \<and> (\<exists>w'. inTx db w' r3)"
      then obtain w' where in3: "inTx db w' r3"
        by blast
      show "post fault db
         (\<lambda>rep r'. entries rep
                      = expected db ts
                        @ (if resetUsers
                           then [\<lparr>table = ''usuarios'',
                                  deleted = length (filter deletedByPurge
                                                      (the (foldl emptied db ts ''usuarios''))),
                                  skipped = False\<rparr>]
                           else [])
                    \<and> totalDeleted rep
                      = sum_list (map deleted (filter (\<lambda>x. \<not> skipped x) (entries rep))))
         (case issue fault (txConn a) Commit r3 of
            (Inl e, r4) \<Rightarrow> (Inl e, r4)
          | (Inr done, r4) \<Rightarrow>
              (Inr \<lparr>entries = report',
                    totalDeleted
                      = sum_list (map deleted (filter (\<lambda>x. \<not> skipped x) report'))\<rparr>,
               r4))"
        using r3(2) rep
        by (intro post_bind [OF commit_post [OF in3 r3(1)]]) (simp add: post_def)
    qed
  qed
qed

lemma resetTable_table: "resetTable fault a t r = (Inr x, r') \<Longrightarrow> table x = t"
  by (auto simp: resetTable_def split: prod.splits sum.splits if_splits)

lemma resetTables_tables:
  "resetTables fault a ts report r = (Inr xs, r') \<Longrightarrow> map table xs = map table report @ ts"
proof (induction ts arbitrary: report r)
  case Nil
  then show ?case by simp
next
  case (Cons t ts)
  then show ?case
    by (auto split: prod.splits sum.splits dest: resetTable_table)
qed

lemma orchestrate_tables:
  assumes "orchestrate fault a ts resetUsers r = (Inr rep, r')"
  shows "map table (entries rep) = ts @ (if resetUsers then [''usuarios''] else [])
         \<and> totalDeleted rep = sum_list (map deleted (filter (\<lambda>x. \<not> skipped x) (entries rep)))"
  using assms
  by (auto simp: orchestrate_def purgeUsers_def
      split: prod.splits sum.splits if_splits dest: resetTables_tables)

lemma service_returned:
  "fst (resetOperationalDataService fault a ts resetUsers db) = Inr rep \<Longrightarrow>
   \<exists>r'. orchestrate fault a ts resetUsers \<lparr>eng = \<lparr>committed = db, working = None\<rparr>, issued = []\<rparr>
          = (Inr rep, r')"
  by (auto simp: resetOperationalDataService_def split: prod.splits sum.splits)

text \<open>
  C4, on the model of the service. A run of \<^verbatim>\<open>resetOperationalData(options)\<close> in
  which no statement fails returns a report to its caller, on both backends and for
  every table list (when the purge is asked for, the user table has to exist).
  Whenever a run returns a report, the report holds one entry per processed table in
  processing order (the table list, then the user table when the purge was asked for),
  and its \<open>totalDeleted\<close> is the sum of the \<open>deleted\<close> fields over the entries that
  are not skipped. For a list without repetitions that does not name the user table,
  the entries are those of the tables as they stood before the run: skipped with
  nothing deleted for an absent table, the number of rows it held for a present one,
  and for the user table the number of accounts the purge selects.
\<close>

theorem service_returns_report:
  "((resetUsers \<longrightarrow> db ''usuarios'' \<noteq> None) \<longrightarrow>
      (\<exists>rep. fst (resetOperationalDataService None a ts resetUsers db) = Inr rep))
   \<and> (fst (resetOperationalDataService fault a ts resetUsers db) = Inr rep \<longrightarrow>
        map table (entries rep) = ts @ (if resetUsers then [''usuarios''] else [])
        \<and> totalDeleted rep
          = sum_list (map deleted (filter (\<lambda>x. \<not> skipped x) (entries rep))))
   \<and> ((resetUsers \<longrightarrow> db ''usuarios'' \<noteq> None) \<and> distinct ts \<and> ''usuarios'' \<notin> set ts
        \<and> fst (resetOperationalDataService fault a ts resetUsers db) = Inr rep \<longrightarrow>
        entries rep
          = map (entry db) ts
            @ (if resetUsers
               then [\<lparr>table = ''usuarios'',
                      deleted = length (filter deletedByPurge (the (db ''usuarios''))),
                      skipped = False\<rparr>]
               else []))"
proof (intro conjI impI)
  let ?r0 = "\<lparr>eng = \<lparr>committed = db, working = None\<rparr>, issued = []\<rparr>"
  assume u: "resetUsers \<longrightarrow> db ''usuarios'' \<noteq> None"
  obtain res r where o: "orchestrate None a ts resetUsers ?r0 = (res, r)"
    by (cases "orchestrate None a ts resetUsers ?r0") auto
  show "\<exists>rep. fst (resetOperationalDataService None a ts resetUsers db) = Inr rep"
  proof (cases res)
    case (Inr rep)
    with o show ?thesis
      by (simp add: resetOperationalDataService_def)
  next
    case (Inl e)
    with o orchestrate_post [where resetUsers = resetUsers and db = db and fault = None and a = a and ts = ts, OF u] show ?thesis
      by (simp add: post_def failedNow_def)
  qed
next
  assume "fst (resetOperationalDataService fault a ts resetUsers db) = Inr rep"
  then obtain r' where
    "orchestrate fault a ts resetUsers \<lparr>eng = \<lparr>committed = db, working = None\<rparr>, issued = []\<rparr>
       = (Inr rep, r')"
    using service_returned by blast
  then have t: "map table (entries rep) = ts @ (if resetUsers then [''usuarios''] else [])
      \<and> totalDeleted rep = sum_list (map deleted (filter (\<lambda>x. \<not> skipped x) (entries rep)))"
    by (rule orchestrate_tables)
  from t show "map table (entries rep) = ts @ (if resetUsers then [''usuarios''] else [])"
    by (rule conjunct1)
  from t show "totalDeleted rep
      = sum_list (map deleted (filter (\<lambda>x. \<not> skipped x) (entries rep)))"
    by (rule conjunct2)
next
  assume h: "(resetUsers \<longrightarrow> db ''usuarios'' \<noteq> None) \<and> distinct ts \<and> ''usuarios'' \<notin> set ts
        \<and> fst (resetOperationalDataService fault a ts resetUsers db) = Inr rep"
  then have u: "resetUsers \<longrightarrow> db ''usuarios'' \<noteq> None" and d: "distinct ts"
    and n: "''usuarios'' \<notin> set ts"
    and f: "fst (resetOperationalDataService fault a ts resetUsers db) = Inr rep"
    by simp_all
  from f obtain r' where
    o: "orchestrate fault a ts resetUsers \<lparr>eng = \<lparr>committed = db, working = None\<rparr>, issued = []\<rparr>
       = (Inr rep, r')"
    using service_returned by blast
  from n have "foldl emptied db ts ''usuarios'' = db ''usuarios''"
    by (simp add: foldl_emptied emptiedAll_def)
  with orchestrate_post [where resetUsers = resetUsers and db = db and fault = fault and a = a and ts = ts, OF u] o d
  show "entries rep
          = map (entry db) ts
            @ (if resetUsers
               then [\<lparr>table = ''usuarios'',
                      deleted = length (filter deletedByPurge (the (db ''usuarios''))),
                      skipped = False\<rparr>]
               else [])"
    by (simp add: post_def expected_distinct)
qed

theorem service_returns_report_witness:
  "fst (resetOperationalDataService None Postgres [''manutencoes'', ''veiculos''] False
          sampleTables)
     = Inr \<lparr>entries = [\<lparr>table = ''manutencoes'', deleted = 3, skipped = False\<rparr>,
                       \<lparr>table = ''veiculos'', deleted = 2, skipped = False\<rparr>],
            totalDeleted = 5\<rparr>
   \<and> (\<exists>rep. fst (resetOperationalDataService None Sqlite TABLES_TO_CLEAN True sampleTables)
               = Inr rep
         \<and> map table (entries rep) = TABLES_TO_CLEAN @ [''usuarios'']
         \<and> totalDeleted rep
           = sum_list (map deleted (filter (\<lambda>x. \<not> skipped x) (entries rep)))
         \<and> entries rep
           = map (entry sampleTables) TABLES_TO_CLEAN
             @ [\<lparr>table = ''usuarios'', deleted = 1, skipped = False\<rparr>])"
proof -
  have e: "fst (resetOperationalDataService None Postgres [''manutencoes'', ''veiculos''] False
          sampleTables)
     = Inr \<lparr>entries = [\<lparr>table = ''manutencoes'', deleted = 3, skipped = False\<rparr>,
                       \<lparr>table = ''veiculos'', deleted = 2, skipped = False\<rparr>],
            totalDeleted = 5\<rparr>"
    by code_simp
  have u: "sampleTables ''usuarios'' \<noteq> None"
    and p: "length (filter deletedByPurge (the (sampleTables ''usuarios''))) = 1"
    by (simp_all add: sampleTables_def deletedByPurge_def sqlNotEqual_def)
  from u obtain rep where
    r: "fst (resetOperationalDataService None Sqlite TABLES_TO_CLEAN True sampleTables) = Inr rep"
    using service_returns_report [of True sampleTables Sqlite TABLES_TO_CLEAN] by blast
  show ?thesis
    using e r u p distinct_TABLES usuarios_not_cleaned
      service_returns_report [of True sampleTables Sqlite TABLES_TO_CLEAN None rep]
    by (simp add: comp_def)
qed

end
